theory Spec2Isabelle
  imports Complex_Main "HOL-Library.Sublist"
begin

section \<open>Python values shared by the models\<close>

datatype py_error = KeyError | MultipleResultsFound

text \<open>Python's \<open>int(x)\<close> on a float truncates toward zero.\<close>

definition py_int :: "real \<Rightarrow> int" where
  "py_int x = (if 0 \<le> x then \<lfloor>x\<rfloor> else \<lceil>x\<rceil>)"

text \<open>Python's \<open>str(n)\<close> on an int: decimal digits, a minus sign for negatives.\<close>

fun str_nat :: "nat \<Rightarrow> string" where
  "str_nat n =
     (if n < 10 then [''0123456789'' ! n]
      else str_nat (n div 10) @ [''0123456789'' ! (n mod 10)])"

declare str_nat.simps [simp del]

definition str_int :: "int \<Rightarrow> string" where
  "str_int i = (if i < 0 then CHR ''-'' # str_nat (nat (- i)) else str_nat (nat i))"

text \<open>
  \<open>str.isspace\<close> on the characters a header value can hold (Latin-1), which is what
  \<open>str.strip()\<close> removes from both ends.
\<close>

definition py_isspace :: "char \<Rightarrow> bool" where
  "py_isspace c = (of_char c \<in> {9, 10, 11, 12, 13, 28, 29, 30, 31, 32, 133, 160 :: nat})"

definition py_strip :: "string \<Rightarrow> string" where
  "py_strip s = rev (dropWhile py_isspace (rev (dropWhile py_isspace s)))"

text \<open>\<open>s.split(',')[0]\<close>: the text before the first comma (all of \<open>s\<close> when there is none).\<close>

definition split_comma_first :: "string \<Rightarrow> string" where
  "split_comma_first s = takeWhile (\<lambda>c. c \<noteq> CHR '','') s"

section \<open>Rate limiter (core/rate\_limit.py)\<close>

text \<open>
  \<open>self.requests\<close> is a \<open>defaultdict(dict)\<close>: reading an absent IP yields an empty
  dict, so the store is a total function from IPs to per-key dicts. Each entry is
  \<open>(count, window_start)\<close>. Wall-clock readings of \<open>time.time()\<close> are reals.
\<close>

type_synonym rl_store = "string \<Rightarrow> (string \<rightharpoonup> nat \<times> real)"

definition limits_items :: "(string \<times> nat \<times> real) list" where
  "limits_items =
     [(''/auth/'', (10, 60)),
      (''/oauth/token'', (20, 60)),
      (''/api/admin/'', (100, 60)),
      (''default'', (200, 60))]"

definition limits :: "string \<rightharpoonup> nat \<times> real" where
  "limits = map_of limits_items"

record request =
  req_path :: string
  x_forwarded_for :: "string option"
  client_host :: "string option"
  user_agent :: "string option"

definition get_client_ip :: "request \<Rightarrow> string" where
  "get_client_ip request =
     (case x_forwarded_for request of
        Some forwarded \<Rightarrow>
          if forwarded \<noteq> [] then py_strip (split_comma_first forwarded)
          else (case client_host request of Some h \<Rightarrow> h | None \<Rightarrow> ''unknown'')
      | None \<Rightarrow> (case client_host request of Some h \<Rightarrow> h | None \<Rightarrow> ''unknown''))"

definition get_limit_key :: "string \<Rightarrow> string" where
  "get_limit_key path =
     (if prefix ''/auth/'' path then ''/auth/''
      else if path = ''/oauth/token'' then ''/oauth/token''
      else if prefix ''/api/admin/'' path then ''/api/admin/''
      else ''default'')"

definition set_entry :: "rl_store \<Rightarrow> string \<Rightarrow> string \<Rightarrow> nat \<times> real \<Rightarrow> rl_store" where
  "set_entry requests client_ip limit_key v =
     requests(client_ip := (requests client_ip)(limit_key \<mapsto> v))"

definition check_rate_limit ::
  "rl_store \<Rightarrow> string \<Rightarrow> string \<Rightarrow> real \<Rightarrow> py_error + ((bool \<times> int) \<times> rl_store)" where
  "check_rate_limit requests client_ip limit_key now =
     (case limits limit_key of
        None \<Rightarrow> Inl KeyError
      | Some (max_requests, window_seconds) \<Rightarrow>
          (case requests client_ip limit_key of
             None \<Rightarrow> Inr ((True, 0), set_entry requests client_ip limit_key (1, now))
           | Some (count, window_start) \<Rightarrow>
               if now - window_start > window_seconds
               then Inr ((True, 0), set_entry requests client_ip limit_key (1, now))
               else if count < max_requests
               then Inr ((True, 0), set_entry requests client_ip limit_key (count + 1, window_start))
               else Inr ((False, py_int (window_seconds - (now - window_start)) + 1), requests)))"

definition max_window :: real where
  "max_window = fold max (map (\<lambda>(k, (m, w)). w) limits_items) 0"

definition cleanup_old_entries :: "rl_store \<Rightarrow> real \<Rightarrow> rl_store" where
  "cleanup_old_entries requests now =
     (\<lambda>client_ip limit_key.
        case requests client_ip limit_key of
          None \<Rightarrow> None
        | Some (count, window_start) \<Rightarrow>
            if now - window_start > max_window * 2 then None
            else Some (count, window_start))"

record http_exception =
  status_code :: nat
  detail :: string
  headers :: "(string \<times> string) list"

datatype dispatch_result = CallNext | Raise http_exception | Crash py_error

text \<open>
  One pass through \<open>dispatch\<close>. \<open>now\<close> is the clock reading taken inside
  \<open>_check_rate_limit\<close>; \<open>sweep\<close> is \<open>Some t\<close> when the hash test
  \<open>hash(client_ip + str(time.time())) % 100 == 0\<close> fires, with \<open>t\<close> the clock reading taken
  inside \<open>_cleanup_old_entries\<close>, and \<open>None\<close> when it does not.
\<close>

definition dispatch ::
  "rl_store \<Rightarrow> request \<Rightarrow> real \<Rightarrow> real option \<Rightarrow> dispatch_result \<times> rl_store" where
  "dispatch requests request now sweep =
     (let path = req_path request in
      if path \<in> set [''/'', ''/health'', ''/docs'', ''/openapi.json''] then (CallNext, requests)
      else
        let client_ip = get_client_ip request;
            limit_key = get_limit_key path
        in case check_rate_limit requests client_ip limit_key now of
             Inl e \<Rightarrow> (Crash e, requests)
           | Inr ((is_allowed, retry_after), requests') \<Rightarrow>
               if \<not> is_allowed
               then (Raise \<lparr>status_code = 429,
                            detail = ''Too many requests. Please slow down.'',
                            headers = [(''Retry-After'', str_int retry_after)]\<rparr>, requests')
               else (case sweep of
                       None \<Rightarrow> (CallNext, requests')
                     | Some t \<Rightarrow> (CallNext, cleanup_old_entries requests' t)))"

text \<open>A trace of requests through the middleware, oldest first.\<close>

fun run :: "rl_store \<Rightarrow> (request \<times> real \<times> real option) list \<Rightarrow> dispatch_result list \<times> rl_store" where
  "run requests [] = ([], requests)"
| "run requests ((request, now, sweep) # es) =
     (case dispatch requests request now sweep of
        (d, requests') \<Rightarrow> (case run requests' es of (ds, requests'') \<Rightarrow> (d # ds, requests'')))"

text \<open>
  A trace is in clock order from \<open>T\<close> on when every reading of the wall clock is at least
  the one before it: each request's \<open>now\<close>, then its sweep time when the sweep runs.
\<close>

fun ordered :: "real \<Rightarrow> (request \<times> real \<times> real option) list \<Rightarrow> bool" where
  "ordered T [] = True"
| "ordered T ((request, now, sweep) # es) =
     (T \<le> now \<and> (case sweep of None \<Rightarrow> ordered now es | Some t \<Rightarrow> now \<le> t \<and> ordered t es))"

text \<open>The requests of a trace that \<open>_get_client_ip\<close> attributes to \<open>a\<close>, and their results.\<close>

definition from_ip ::
  "string \<Rightarrow> (request \<times> real \<times> real option) list \<Rightarrow> (request \<times> real \<times> real option) list" where
  "from_ip a es = filter (\<lambda>(request, now, sweep). get_client_ip request = a) es"

definition outputs_for ::
  "string \<Rightarrow> (request \<times> real \<times> real option) list \<Rightarrow> dispatch_result list \<Rightarrow> dispatch_result list" where
  "outputs_for a es ds =
     map snd (filter (\<lambda>((request, now, sweep), d). get_client_ip request = a) (zip es ds))"

text \<open>
  An entry is stale at \<open>T\<close> when the next check at or after \<open>T\<close> starts a new window:
  it is absent, or its window ended before \<open>T\<close>.
\<close>

fun stale :: "real \<Rightarrow> (nat \<times> real) option \<Rightarrow> bool" where
  "stale T None = True"
| "stale T (Some (c, ws)) = (T - ws > 60)"

definition slot_rel :: "real \<Rightarrow> string \<Rightarrow> rl_store \<Rightarrow> rl_store \<Rightarrow> bool" where
  "slot_rel T a s1 s2 = (\<forall>k. s1 a k = s2 a k \<or> (stale T (s1 a k) \<and> stale T (s2 a k)))"

definition token_request_from :: "string \<Rightarrow> request \<Rightarrow> bool" where
  "token_request_from ip r = (req_path r = ''/oauth/token'' \<and> get_client_ip r = ip)"

text \<open>
  A request (and its sweep, when it runs) falls inside the window opened at \<open>ws\<close>: its clock
  readings are not before \<open>ws\<close> and at most 60 seconds after it.
\<close>

definition in_window :: "real \<Rightarrow> real \<times> real option \<Rightarrow> bool" where
  "in_window ws e =
     (ws \<le> fst e \<and> fst e - ws \<le> 60 \<and>
      (case snd e of None \<Rightarrow> True | Some t \<Rightarrow> ws \<le> t \<and> t - ws \<le> 60))"

definition empty_store :: rl_store where
  "empty_store = (\<lambda>client_ip. Map.empty)"

definition tok_req :: request where
  "tok_req = \<lparr>req_path = ''/oauth/token'', x_forwarded_for = None,
              client_host = Some ''10.0.0.1'', user_agent = None\<rparr>"

definition other_req :: request where
  "other_req = \<lparr>req_path = ''/oauth/token'', x_forwarded_for = Some ''10.0.0.2, 172.16.0.1'',
                client_host = Some ''172.16.0.9'', user_agent = None\<rparr>"

definition trace_mixed :: "(request \<times> real \<times> real option) list" where
  "trace_mixed =
     [(tok_req, 0, None), (other_req, 1, Some 2), (tok_req, 3, None),
      (other_req, 200, Some 201), (tok_req, 300, None)]"

definition trace_alone :: "(request \<times> real \<times> real option) list" where
  "trace_alone = [(tok_req, 0, None), (tok_req, 3, None), (tok_req, 300, None)]"

section \<open>Credential store and admin surface (api/admin.py, api/applications.py)\<close>

text \<open>
  UUID primary keys are naturals. The store is the set of tables the endpoints touch, each
  a list of rows in the order a query without \<open>ORDER BY\<close> returns them. An endpoint takes
  the committed store and returns its response together with the store after the request:
  a request that raises before \<open>db.commit()\<close> leaves the store as it was.
\<close>

type_synonym uuid = nat

definition str_uuid :: "uuid \<Rightarrow> string" where
  "str_uuid u = str_nat u"

datatype json = JNull | JBool bool | JInt int | JStr string | JList "json list" | JObj "(string \<times> json) list"

record user =
  user_id :: uuid
  email :: string
  department :: "string option"
  user_is_active :: bool
  user_is_admin :: bool

record application =
  app_id :: uuid
  app_name :: string
  client_id :: string
  client_secret_hash :: string
  redirect_uris :: "string list"
  app_is_active :: bool
  is_public :: "bool option"
  allowed_departments :: "string list option"

record application_access =
  acc_user_id :: "uuid option"
  acc_group_id :: "uuid option"
  acc_application_id :: uuid
  granted_by :: uuid

record audit_log =
  log_user_id :: "uuid option"
  action :: string
  entity_type :: string
  entity_id :: "uuid option"
  old_values :: "json option"
  new_values :: "json option"
  ip_address :: "string option"
  log_user_agent :: "string option"

record oauth_code =
  code_value :: string
  code_user_id :: uuid
  code_application_id :: uuid
  code_redirect_uri :: string
  code_scopes :: "string list"
  code_state :: "string option"
  code_challenge :: "string option"
  code_challenge_method :: "string option"
  code_expires_at :: int
  consumed_at :: "int option"

record oauth_token =
  token_value :: string
  token_kind :: string
  token_user_id :: uuid
  token_application_id :: uuid
  token_scopes :: "string list"
  token_expires_at :: int
  revoked_at :: "int option"

record db =
  users :: "user list"
  applications :: "application list"
  application_access :: "application_access list"
  user_group_members :: "(uuid \<times> uuid) list"
  audit_logs :: "audit_log list"
  oauth_codes :: "oauth_code list"
  oauth_tokens :: "oauth_token list"

text \<open>
  What an endpoint can fail with: an \<open>HTTPException\<close> it raises, or a Python exception
  nobody catches (the framework answers 500).
\<close>

datatype failure = HTTP http_exception | Unhandled py_error

definition HTTPException :: "nat \<Rightarrow> string \<Rightarrow> failure" where
  "HTTPException sc msg = HTTP \<lparr>status_code = sc, detail = msg, headers = []\<rparr>"

text \<open>SQLAlchemy's \<open>Result.scalar_one_or_none()\<close> on the rows a query selects.\<close>

fun scalar_one_or_none :: "'a list \<Rightarrow> py_error + 'a option" where
  "scalar_one_or_none [] = Inr None"
| "scalar_one_or_none [x] = Inr (Some x)"
| "scalar_one_or_none (x # y # zs) = Inl MultipleResultsFound"

subsection \<open>AuditService.log\_action (services/audit\_service.py)\<close>

definition log_action ::
  "db \<Rightarrow> uuid option \<Rightarrow> string \<Rightarrow> string \<Rightarrow> uuid option \<Rightarrow> json option \<Rightarrow> json option \<Rightarrow>
   request option \<Rightarrow> db" where
  "log_action d uid act etype eid old new req =
     (let ip = (case req of
                  None \<Rightarrow> None
                | Some r \<Rightarrow>
                    (case x_forwarded_for r of
                       Some forwarded_for \<Rightarrow>
                         if forwarded_for \<noteq> [] then Some (py_strip (split_comma_first forwarded_for))
                         else client_host r
                     | None \<Rightarrow> client_host r));
          ua = (case req of
                  None \<Rightarrow> None
                | Some r \<Rightarrow> Some (take 500 (case user_agent r of Some a \<Rightarrow> a | None \<Rightarrow> [])))
      in d\<lparr>audit_logs := audit_logs d @
            [\<lparr>log_user_id = uid, action = act, entity_type = etype, entity_id = eid,
              old_values = old, new_values = new, ip_address = ip, log_user_agent = ua\<rparr>]\<rparr>)"

subsection \<open>update\_user\<close>

record user_update_request =
  upd_is_active :: "bool option"
  upd_is_admin :: "bool option"

definition update_user ::
  "db \<Rightarrow> uuid \<Rightarrow> user_update_request \<Rightarrow> request \<Rightarrow> user \<Rightarrow> (failure + user) \<times> db" where
  "update_user d uid data req admin =
     (case scalar_one_or_none (filter (\<lambda>u. user_id u = uid) (users d)) of
        Inl e \<Rightarrow> (Inl (Unhandled e), d)
      | Inr None \<Rightarrow> (Inl (HTTPException 404 ''User not found''), d)
      | Inr (Some usr) \<Rightarrow>
          if user_id usr = user_id admin \<and> upd_is_admin data = Some False
          then (Inl (HTTPException 400 ''Cannot remove your own admin status''), d)
          else
            let (old1, new1, usr1) =
                  (case upd_is_active data of
                     Some b \<Rightarrow>
                       if user_is_active usr \<noteq> b
                       then ([(''is_active'', JBool (user_is_active usr))],
                             [(''is_active'', JBool b)], usr\<lparr>user_is_active := b\<rparr>)
                       else ([], [], usr)
                   | None \<Rightarrow> ([], [], usr));
                (old2, new2, usr2) =
                  (case upd_is_admin data of
                     Some b \<Rightarrow>
                       if user_is_admin usr1 \<noteq> b
                       then (old1 @ [(''is_admin'', JBool (user_is_admin usr1))],
                             new1 @ [(''is_admin'', JBool b)], usr1\<lparr>user_is_admin := b\<rparr>)
                       else (old1, new1, usr1)
                   | None \<Rightarrow> (old1, new1, usr1));
                d1 = d\<lparr>users := map (\<lambda>u. if user_id u = uid then usr2 else u) (users d)\<rparr>;
                d2 = (if old2 \<noteq> []
                      then log_action d1 (Some (user_id admin)) ''user.update'' ''user''
                             (Some (user_id usr)) (Some (JObj old2)) (Some (JObj new2)) (Some req)
                      else d1)
            in (Inr usr2, d2))"

subsection \<open>bulk\_user\_action\<close>

record bulk_user_action_request =
  bulk_user_ids :: "uuid list"
  bulk_action :: string

text \<open>What one iteration does to a selected user: the user after it, and whether it counted.\<close>

definition bulk_step :: "string \<Rightarrow> uuid \<Rightarrow> user \<Rightarrow> user \<times> bool" where
  "bulk_step act admin_id usr =
     (if act = ''activate''
      then (if \<not> user_is_active usr then (usr\<lparr>user_is_active := True\<rparr>, True) else (usr, False))
      else if act = ''deactivate''
      then (if user_is_active usr then (usr\<lparr>user_is_active := False\<rparr>, True) else (usr, False))
      else if act = ''make_admin''
      then (if \<not> user_is_admin usr then (usr\<lparr>user_is_admin := True\<rparr>, True) else (usr, False))
      else if act = ''remove_admin''
      then (if user_id usr \<noteq> admin_id \<and> user_is_admin usr
            then (usr\<lparr>user_is_admin := False\<rparr>, True) else (usr, False))
      else (usr, False))"

definition bulk_user_action ::
  "db \<Rightarrow> bulk_user_action_request \<Rightarrow> request \<Rightarrow> user \<Rightarrow> (failure + nat \<times> string) \<times> db" where
  "bulk_user_action d data req admin =
     (if user_id admin \<in> set (bulk_user_ids data) \<and>
         bulk_action data \<in> set [''deactivate'', ''remove_admin'']
      then (Inl (HTTPException 400 ''Cannot perform this action on yourself''), d)
      else
        let selected = filter (\<lambda>u. user_id u \<in> set (bulk_user_ids data)) (users d);
            changed = filter (\<lambda>u. snd (bulk_step (bulk_action data) (user_id admin) u)) selected;
            updated = length changed;
            updated_user_ids = map (\<lambda>u. str_uuid (user_id u)) changed;
            d1 = d\<lparr>users := map (\<lambda>u. if user_id u \<in> set (bulk_user_ids data)
                                       then fst (bulk_step (bulk_action data) (user_id admin) u)
                                       else u) (users d)\<rparr>;
            d2 = (if updated > 0
                  then log_action d1 (Some (user_id admin)) (''user.bulk_'' @ bulk_action data) ''user''
                         None None
                         (Some (JObj [(''user_ids'', JList (map JStr updated_user_ids)),
                                      (''count'', JInt (int updated))]))
                         (Some req)
                  else d1)
        in (Inr (updated, bulk_action data), d2))"

subsection \<open>grant\_access and revoke\_access\<close>

record access_grant_request =
  grant_application_id :: uuid
  grant_user_ids :: "uuid list"
  grant_group_ids :: "uuid list"

text \<open>
  The two \<open>for\<close> statements of \<open>grant_access\<close>. A row added by \<open>db.add\<close> is seen by
  the next \<open>select\<close> of the same session (the session flushes before a query), so each
  iteration passes the table on to the next.
\<close>

fun grant_users ::
  "uuid \<Rightarrow> uuid \<Rightarrow> uuid list \<Rightarrow> application_access list \<Rightarrow> nat \<Rightarrow>
   py_error + (application_access list \<times> nat)" where
  "grant_users aid admin_id [] rows granted = Inr (rows, granted)"
| "grant_users aid admin_id (u # us) rows granted =
     (case scalar_one_or_none
             (filter (\<lambda>a. acc_user_id a = Some u \<and> acc_application_id a = aid) rows) of
        Inl e \<Rightarrow> Inl e
      | Inr (Some existing) \<Rightarrow> grant_users aid admin_id us rows granted
      | Inr None \<Rightarrow>
          grant_users aid admin_id us
            (rows @ [\<lparr>acc_user_id = Some u, acc_group_id = None, acc_application_id = aid,
                       granted_by = admin_id\<rparr>])
            (granted + 1))"

fun grant_groups ::
  "uuid \<Rightarrow> uuid \<Rightarrow> uuid list \<Rightarrow> application_access list \<Rightarrow> nat \<Rightarrow>
   py_error + (application_access list \<times> nat)" where
  "grant_groups aid admin_id [] rows granted = Inr (rows, granted)"
| "grant_groups aid admin_id (g # gs) rows granted =
     (case scalar_one_or_none
             (filter (\<lambda>a. acc_group_id a = Some g \<and> acc_application_id a = aid) rows) of
        Inl e \<Rightarrow> Inl e
      | Inr (Some existing) \<Rightarrow> grant_groups aid admin_id gs rows granted
      | Inr None \<Rightarrow>
          grant_groups aid admin_id gs
            (rows @ [\<lparr>acc_user_id = None, acc_group_id = Some g, acc_application_id = aid,
                       granted_by = admin_id\<rparr>])
            (granted + 1))"

definition grant_access ::
  "db \<Rightarrow> access_grant_request \<Rightarrow> request \<Rightarrow> user \<Rightarrow> (failure + nat) \<times> db" where
  "grant_access d data req admin =
     (case scalar_one_or_none
             (filter (\<lambda>a. app_id a = grant_application_id data) (applications d)) of
        Inl e \<Rightarrow> (Inl (Unhandled e), d)
      | Inr None \<Rightarrow> (Inl (HTTPException 404 ''Application not found''), d)
      | Inr (Some app) \<Rightarrow>
          (case grant_users (grant_application_id data) (user_id admin) (grant_user_ids data)
                  (application_access d) 0 of
             Inl e \<Rightarrow> (Inl (Unhandled e), d)
           | Inr (rows1, granted1) \<Rightarrow>
               (case grant_groups (grant_application_id data) (user_id admin) (grant_group_ids data)
                       rows1 granted1 of
                  Inl e \<Rightarrow> (Inl (Unhandled e), d)
                | Inr (rows2, granted) \<Rightarrow>
                    let d1 = d\<lparr>application_access := rows2\<rparr>;
                        d2 = (if granted > 0
                              then log_action d1 (Some (user_id admin)) ''access.grant'' ''application''
                                     (Some (grant_application_id data)) None
                                     (Some (JObj
                                        [(''application'', JStr (app_name app)),
                                         (''user_ids'', JList (map (\<lambda>u. JStr (str_uuid u)) (grant_user_ids data))),
                                         (''group_ids'', JList (map (\<lambda>g. JStr (str_uuid g)) (grant_group_ids data))),
                                         (''granted_count'', JInt (int granted))]))
                                     (Some req)
                              else d1)
                    in (Inr granted, d2))))"

record access_revoke_request =
  revoke_application_id :: uuid
  revoke_user_ids :: "uuid list"
  revoke_group_ids :: "uuid list"

text \<open>
  A bulk \<open>delete(...).where(...)\<close>: the rows left and \<open>rowcount\<close>. A \<open>NULL\<close> column is not
  \<open>IN\<close> any list.
\<close>

definition delete_where :: "('a \<Rightarrow> bool) \<Rightarrow> 'a list \<Rightarrow> 'a list \<times> nat" where
  "delete_where p rows = (filter (\<lambda>r. \<not> p r) rows, length (filter p rows))"

definition revoke_access ::
  "db \<Rightarrow> access_revoke_request \<Rightarrow> request \<Rightarrow> user \<Rightarrow> (failure + nat) \<times> db" where
  "revoke_access d data req admin =
     (case scalar_one_or_none
             (filter (\<lambda>a. app_id a = revoke_application_id data) (applications d)) of
        Inl e \<Rightarrow> (Inl (Unhandled e), d)
      | Inr app \<Rightarrow>
          let (rows1, revoked1) =
                (if revoke_user_ids data \<noteq> []
                 then delete_where
                        (\<lambda>a. (case acc_user_id a of Some u \<Rightarrow> u \<in> set (revoke_user_ids data) | None \<Rightarrow> False) \<and>
                              acc_application_id a = revoke_application_id data)
                        (application_access d)
                 else (application_access d, 0));
              (rows2, revoked2) =
                (if revoke_group_ids data \<noteq> []
                 then delete_where
                        (\<lambda>a. (case acc_group_id a of Some g \<Rightarrow> g \<in> set (revoke_group_ids data) | None \<Rightarrow> False) \<and>
                              acc_application_id a = revoke_application_id data)
                        rows1
                 else (rows1, 0));
              revoked = revoked1 + revoked2;
              d1 = d\<lparr>application_access := rows2\<rparr>;
              d2 = (if revoked > 0
                    then log_action d1 (Some (user_id admin)) ''access.revoke'' ''application''
                           (Some (revoke_application_id data))
                           (Some (JObj
                              [(''user_ids'', JList (map (\<lambda>u. JStr (str_uuid u)) (revoke_user_ids data))),
                               (''group_ids'', JList (map (\<lambda>g. JStr (str_uuid g)) (revoke_group_ids data)))]))
                           (Some (JObj [(''revoked_count'', JInt (int revoked))]))
                           (Some req)
                    else d1)
          in (Inr revoked, d2))"

subsection \<open>set\_application\_public\<close>

definition set_application_public ::
  "db \<Rightarrow> uuid \<Rightarrow> bool \<Rightarrow> user \<Rightarrow> (failure + uuid \<times> bool) \<times> db" where
  "set_application_public d aid pub admin =
     (case scalar_one_or_none (filter (\<lambda>a. app_id a = aid) (applications d)) of
        Inl e \<Rightarrow> (Inl (Unhandled e), d)
      | Inr None \<Rightarrow> (Inl (HTTPException 404 ''Application not found''), d)
      | Inr (Some app) \<Rightarrow>
          (Inr (aid, pub),
           d\<lparr>applications :=
                map (\<lambda>a. if app_id a = aid then a\<lparr>is_public := Some pub\<rparr> else a) (applications d)\<rparr>))"

subsection \<open>list\_applications (api/applications.py)\<close>

definition list_applications :: "db \<Rightarrow> user \<Rightarrow> application list" where
  "list_applications d current_user =
     (let apps = filter app_is_active (applications d);
          user_department = (case department current_user of Some dep \<Rightarrow> dep | None \<Rightarrow> [])
      in filter (\<lambda>app. let allowed = (case allowed_departments app of Some l \<Rightarrow> l | None \<Rightarrow> [])
                        in allowed = [] \<or> user_department \<in> set allowed) apps)"

text \<open>
  The access decision as section 4.6 of the specification words it, for comparison with
  the listing: active, department gate, principal gate.
\<close>

definition department_gate :: "user \<Rightarrow> application \<Rightarrow> bool" where
  "department_gate u a =
     (let allowed = (case allowed_departments a of Some l \<Rightarrow> l | None \<Rightarrow> [])
      in allowed = [] \<or> (case department u of Some dep \<Rightarrow> dep | None \<Rightarrow> []) \<in> set allowed)"

definition principal_gate :: "db \<Rightarrow> user \<Rightarrow> application \<Rightarrow> bool" where
  "principal_gate d u a =
     (is_public a = Some True \<or> user_is_admin u \<or>
      (\<exists>r \<in> set (application_access d).
          acc_user_id r = Some (user_id u) \<and> acc_application_id r = app_id a) \<or>
      (\<exists>r \<in> set (application_access d). \<exists>m \<in> set (user_group_members d).
          acc_group_id r = Some (fst m) \<and> snd m = user_id u \<and> acc_application_id r = app_id a))"

definition spec_may_use :: "db \<Rightarrow> user \<Rightarrow> application \<Rightarrow> bool" where
  "spec_may_use d u a = (app_is_active a \<and> department_gate u a \<and> principal_gate d u a)"

section \<open>OAuth2 provider (api/oauth.py)\<close>

text \<open>Truthiness of an optional string (\<open>None\<close> and \<open>""\<close> are false), and \<open>x or ''\<close>.\<close>

definition truthy :: "string option \<Rightarrow> bool" where
  "truthy x = (case x of None \<Rightarrow> False | Some s \<Rightarrow> s \<noteq> [])"

definition or_empty :: "string option \<Rightarrow> string" where
  "or_empty x = (case x of None \<Rightarrow> [] | Some s \<Rightarrow> s)"

text \<open>\<open>urllib.parse.urlencode\<close> on string keys and values (each through \<open>quote_plus\<close>).\<close>

definition is_unreserved :: "char \<Rightarrow> bool" where
  "is_unreserved c =
     (let n = (of_char c :: nat)
      in (65 \<le> n \<and> n \<le> 90) \<or> (97 \<le> n \<and> n \<le> 122) \<or> (48 \<le> n \<and> n \<le> 57) \<or>
         c \<in> set ''_.-~'')"

definition hex_byte :: "char \<Rightarrow> string" where
  "hex_byte c =
     (let n = (of_char c :: nat)
      in [''0123456789ABCDEF'' ! (n div 16), ''0123456789ABCDEF'' ! (n mod 16)])"

definition quote_plus :: "string \<Rightarrow> string" where
  "quote_plus s =
     concat (map (\<lambda>c. if is_unreserved c then [c]
                       else if c = CHR '' '' then ''+''
                       else CHR ''%'' # hex_byte c) s)"

fun urlencode :: "(string \<times> string) list \<Rightarrow> string" where
  "urlencode [] = []"
| "urlencode [(k, v)] = quote_plus k @ ''='' @ quote_plus v"
| "urlencode ((k, v) # kv # rest) = quote_plus k @ ''='' @ quote_plus v @ ''&'' @ urlencode (kv # rest)"

text \<open>\<open>s.split()\<close>: the maximal runs of non-whitespace; \<open>cur\<close> is the run being read.\<close>

fun split_ws :: "string \<Rightarrow> string \<Rightarrow> string list" where
  "split_ws [] cur = (if cur = [] then [] else [cur])"
| "split_ws (c # cs) cur =
     (if py_isspace c then (if cur = [] then split_ws cs [] else cur # split_ws cs [])
      else split_ws cs (cur @ [c]))"

text \<open>
  The functions of \<open>oauth_service\<close> that rest on library cryptography are parameters of the
  model: \<open>verify_secret plain hash\<close> (the password-hash check of a client secret) and
  \<open>s256 verifier\<close>, which stands for \<open>BASE64URL(SHA-256(verifier))\<close>.
\<close>

record crypto =
  verify_secret :: "string \<Rightarrow> string \<Rightarrow> bool"
  s256 :: "string \<Rightarrow> string"

subsection \<open>oauth\_service, as far as the endpoints call it\<close>

text \<open>
  Modelled from the spec: \<open>oauth_service.get_application_by_client_id\<close>, whose module is
  not among the sources. Section 4.3 step 3: the application with that \<open>client_id\<close>, none
  when it is not found or inactive.
\<close>

definition get_application_by_client_id :: "db \<Rightarrow> string \<Rightarrow> application option" where
  "get_application_by_client_id d cid =
     find (\<lambda>a. client_id a = cid \<and> app_is_active a) (applications d)"

text \<open>
  Modelled from the spec: \<open>oauth_service.validate_redirect_uri\<close>. Section 4.3 step 4:
  membership in the registered URIs by exact string comparison.
\<close>

definition validate_redirect_uri :: "application \<Rightarrow> string \<Rightarrow> bool" where
  "validate_redirect_uri app uri = (uri \<in> set (redirect_uris app))"

text \<open>
  Modelled from the spec: \<open>oauth_service.create_authorization_code\<close>. Section 4.3 step 6
  and section 3: a code row bound to user, application, redirect URI, scopes, state and
  PKCE challenge, expiring 10 minutes after issuance, not consumed. \<open>new_code\<close> is the
  high-entropy string the service draws; times are seconds.
\<close>

definition create_authorization_code ::
  "db \<Rightarrow> user \<Rightarrow> application \<Rightarrow> string \<Rightarrow> string list \<Rightarrow> string option \<Rightarrow> string option \<Rightarrow>
   string option \<Rightarrow> string \<Rightarrow> int \<Rightarrow> string \<times> db" where
  "create_authorization_code d usr app uri scopes st challenge method new_code now =
     (new_code,
      d\<lparr>oauth_codes := oauth_codes d @
          [\<lparr>code_value = new_code, code_user_id = user_id usr, code_application_id = app_id app,
            code_redirect_uri = uri, code_scopes = scopes, code_state = st,
            code_challenge = challenge, code_challenge_method = method,
            code_expires_at = now + 600, consumed_at = None\<rparr>]\<rparr>)"

record token_response =
  access_token :: string
  refresh_token :: "string option"
  id_token :: "string option"
  token_type :: string
  expires_in :: int

text \<open>The opaque strings one exchange draws, and the signed ID token built for it.\<close>

record minted =
  new_access_token :: string
  new_refresh_token :: string
  new_id_token :: string

definition invalid_grant :: "db \<Rightarrow> (token_response option \<times> string option) \<times> db" where
  "invalid_grant d = ((None, Some ''invalid_grant''), d)"

definition invalid_client :: "db \<Rightarrow> (token_response option \<times> string option) \<times> db" where
  "invalid_client d = ((None, Some ''invalid_client''), d)"

text \<open>
  Section 4.4 steps 4 to 6: mark every row of the code consumed and store the access and
  refresh tokens, in one store update, and return the envelope.
\<close>

definition issue_tokens ::
  "db \<Rightarrow> oauth_code \<Rightarrow> int \<Rightarrow> minted \<Rightarrow> (token_response option \<times> string option) \<times> db" where
  "issue_tokens d row now m =
     ((Some \<lparr>access_token = new_access_token m, refresh_token = Some (new_refresh_token m),
             id_token = Some (new_id_token m), token_type = ''Bearer'', expires_in = 3600\<rparr>,
       None),
      d\<lparr>oauth_codes :=
           map (\<lambda>c. if code_value c = code_value row then c\<lparr>consumed_at := Some now\<rparr> else c)
             (oauth_codes d),
         oauth_tokens := oauth_tokens d @
           [\<lparr>token_value = new_access_token m, token_kind = ''access'',
             token_user_id = code_user_id row, token_application_id = code_application_id row,
             token_scopes = code_scopes row, token_expires_at = now + 3600, revoked_at = None\<rparr>,
            \<lparr>token_value = new_refresh_token m, token_kind = ''refresh'',
             token_user_id = code_user_id row, token_application_id = code_application_id row,
             token_scopes = code_scopes row, token_expires_at = now + 2592000, revoked_at = None\<rparr>]\<rparr>)"

text \<open>
  Modelled from the spec: \<open>oauth_service.exchange_code_for_tokens\<close>, the
  authorization\_code branch of section 4.4. It returns the pair \<open>(tokens, error)\<close> the
  endpoint unpacks. Where the spec names no error (a request without \<open>code_verifier\<close> for a
  code that has a challenge, a challenge whose method is neither \<open>S256\<close> nor \<open>plain\<close>) the
  model fails with \<open>invalid_grant\<close>; a code is expired when \<open>expires_at < now\<close>, as in the
  sweep of \<open>cleanup_tokens\<close>.
\<close>

definition exchange_code_for_tokens ::
  "crypto \<Rightarrow> db \<Rightarrow> string \<Rightarrow> string \<Rightarrow> string option \<Rightarrow> string \<Rightarrow> string option \<Rightarrow> int \<Rightarrow> minted \<Rightarrow>
   (token_response option \<times> string option) \<times> db" where
  "exchange_code_for_tokens cr d cd cid secret uri verifier now m =
     (case find (\<lambda>c. code_value c = cd) (oauth_codes d) of
        None \<Rightarrow> invalid_grant d
      | Some row \<Rightarrow>
          if consumed_at row \<noteq> None \<or> code_expires_at row < now then invalid_grant d
          else
            (case find (\<lambda>a. app_id a = code_application_id row) (applications d) of
               None \<Rightarrow> invalid_grant d
             | Some app \<Rightarrow>
                 if client_id app \<noteq> cid \<or> code_redirect_uri row \<noteq> uri then invalid_grant d
                 else
                   (case code_challenge row of
                      Some challenge \<Rightarrow>
                        (case verifier of
                           None \<Rightarrow> invalid_grant d
                         | Some v \<Rightarrow>
                             if code_challenge_method row = Some ''S256''
                             then (if s256 cr v = challenge then issue_tokens d row now m
                                   else invalid_grant d)
                             else if code_challenge_method row = Some ''plain''
                             then (if v = challenge then issue_tokens d row now m
                                   else invalid_grant d)
                             else invalid_grant d)
                    | None \<Rightarrow>
                        (case secret of
                           None \<Rightarrow> invalid_client d
                         | Some s \<Rightarrow>
                             if verify_secret cr s (client_secret_hash app)
                             then issue_tokens d row now m
                             else invalid_client d))))"

text \<open>
  Modelled from the spec: \<open>oauth_service.refresh_tokens\<close>, the refresh\_token branch of
  section 4.4, without rotation (section 9: the source does not rotate). The refresh token
  must exist, be live and belong to the application of \<open>client_id\<close>; an application that
  has a secret set must present it.
\<close>

definition refresh_tokens ::
  "crypto \<Rightarrow> db \<Rightarrow> string \<Rightarrow> string \<Rightarrow> string option \<Rightarrow> int \<Rightarrow> minted \<Rightarrow>
   (token_response option \<times> string option) \<times> db" where
  "refresh_tokens cr d rt cid secret now m =
     (case find (\<lambda>t. token_value t = rt \<and> token_kind t = ''refresh'') (oauth_tokens d) of
        None \<Rightarrow> invalid_grant d
      | Some row \<Rightarrow>
          if revoked_at row \<noteq> None \<or> token_expires_at row < now then invalid_grant d
          else
            (case find (\<lambda>a. app_id a = token_application_id row) (applications d) of
               None \<Rightarrow> invalid_grant d
             | Some app \<Rightarrow>
                 if client_id app \<noteq> cid then invalid_grant d
                 else if client_secret_hash app \<noteq> [] \<and>
                         \<not> (case secret of None \<Rightarrow> False
                                         | Some s \<Rightarrow> verify_secret cr s (client_secret_hash app))
                 then invalid_client d
                 else
                   ((Some \<lparr>access_token = new_access_token m, refresh_token = Some rt,
                           id_token = None, token_type = ''Bearer'', expires_in = 3600\<rparr>,
                     None),
                    d\<lparr>oauth_tokens := oauth_tokens d @
                        [\<lparr>token_value = new_access_token m, token_kind = ''access'',
                          token_user_id = token_user_id row,
                          token_application_id = token_application_id row,
                          token_scopes = token_scopes row, token_expires_at = now + 3600,
                          revoked_at = None\<rparr>]\<rparr>)))"

text \<open>
  Modelled from the spec: \<open>oauth_service.revoke_token\<close>. Section 4.5: mark the token
  revoked if it belongs to this client; the hint is advisory. A token already revoked
  keeps its \<open>revoked_at\<close>.
\<close>

definition service_revoke_token :: "db \<Rightarrow> string \<Rightarrow> uuid \<Rightarrow> string option \<Rightarrow> int \<Rightarrow> db" where
  "service_revoke_token d tok aid hint now =
     d\<lparr>oauth_tokens :=
         map (\<lambda>t. if token_value t = tok \<and> token_application_id t = aid \<and> revoked_at t = None
                   then t\<lparr>revoked_at := Some now\<rparr> else t)
           (oauth_tokens d)\<rparr>"

subsection \<open>authorize\<close>

record authorize_query =
  q_response_type :: string
  q_client_id :: string
  q_redirect_uri :: string
  q_scope :: string
  q_state :: "string option"
  q_code_challenge :: "string option"
  q_code_challenge_method :: "string option"

datatype response = RedirectResponse string

definition authorize ::
  "db \<Rightarrow> authorize_query \<Rightarrow> user option \<Rightarrow> string \<Rightarrow> int \<Rightarrow> (failure + response) \<times> db" where
  "authorize d q current_user new_code now =
     (if q_response_type q \<noteq> ''code''
      then (Inr (RedirectResponse
                  (q_redirect_uri q @ ''?error=unsupported_response_type&state='' @ or_empty (q_state q))), d)
      else if truthy (q_code_challenge_method q) \<and>
              or_empty (q_code_challenge_method q) \<notin> set [''S256'', ''plain'']
      then (Inr (RedirectResponse
                  (q_redirect_uri q @
                   ''?error=invalid_request&error_description=invalid_code_challenge_method&state='' @
                   or_empty (q_state q))), d)
      else
        let method = (if truthy (q_code_challenge q) \<and> \<not> truthy (q_code_challenge_method q)
                      then Some ''plain'' else q_code_challenge_method q)
        in case get_application_by_client_id d (q_client_id q) of
             None \<Rightarrow>
               (Inr (RedirectResponse
                      (q_redirect_uri q @ ''?error=invalid_client&state='' @ or_empty (q_state q))), d)
           | Some app \<Rightarrow>
               if \<not> validate_redirect_uri app (q_redirect_uri q)
               then (Inl (HTTPException 400 ''Invalid redirect_uri''), d)
               else
                 (case current_user of
                    None \<Rightarrow>
                      let oauth_params =
                            urlencode
                              ([(''response_type'', q_response_type q),
                                (''client_id'', q_client_id q),
                                (''redirect_uri'', q_redirect_uri q),
                                (''scope'', q_scope q),
                                (''state'', or_empty (q_state q))] @
                               (if truthy (q_code_challenge q)
                                then [(''code_challenge'', or_empty (q_code_challenge q)),
                                      (''code_challenge_method'', or_empty method)]
                                else []))
                      in (Inr (RedirectResponse
                                (''/auth/sso/login?redirect_to='' @ ''/oauth/authorize?'' @ oauth_params)), d)
                  | Some usr \<Rightarrow>
                      let scopes = (if q_scope q \<noteq> [] then split_ws (q_scope q) [] else [''openid'']);
                          (cd, d') = create_authorization_code d usr app (q_redirect_uri q) scopes
                                       (q_state q) (q_code_challenge q) method new_code now;
                          params = [(''code'', cd)] @
                                   (if truthy (q_state q) then [(''state'', or_empty (q_state q))] else [])
                      in (Inr (RedirectResponse (q_redirect_uri q @ ''?'' @ urlencode params)), d')))"

subsection \<open>token\<close>

record token_form =
  f_grant_type :: string
  f_code :: "string option"
  f_redirect_uri :: "string option"
  f_client_id :: string
  f_client_secret :: "string option"
  f_refresh_token :: "string option"
  f_code_verifier :: "string option"

definition token ::
  "crypto \<Rightarrow> db \<Rightarrow> token_form \<Rightarrow> int \<Rightarrow> minted \<Rightarrow> (failure + token_response option) \<times> db" where
  "token cr d f now m =
     (if f_grant_type f = ''authorization_code''
      then
        if \<not> truthy (f_code f) \<or> \<not> truthy (f_redirect_uri f)
        then (Inl (HTTPException 400 ''Missing code or redirect_uri''), d)
        else
          (case exchange_code_for_tokens cr d (or_empty (f_code f)) (f_client_id f) (f_client_secret f)
                  (or_empty (f_redirect_uri f)) (f_code_verifier f) now m of
             ((tokens, error), d') \<Rightarrow>
               if truthy error then (Inl (HTTPException 400 (or_empty error)), d')
               else (Inr tokens, d'))
      else if f_grant_type f = ''refresh_token''
      then
        if \<not> truthy (f_refresh_token f)
        then (Inl (HTTPException 400 ''Missing refresh_token''), d)
        else
          (case refresh_tokens cr d (or_empty (f_refresh_token f)) (f_client_id f) (f_client_secret f)
                  now m of
             ((tokens, error), d') \<Rightarrow>
               if truthy error then (Inl (HTTPException 400 (or_empty error)), d')
               else (Inr tokens, d'))
      else (Inl (HTTPException 400 ''Unsupported grant_type''), d))"

subsection \<open>revoke\_token\<close>

record revoke_form =
  rv_token :: string
  rv_token_type_hint :: "string option"
  rv_client_id :: string
  rv_client_secret :: string

definition revoke_token ::
  "crypto \<Rightarrow> db \<Rightarrow> revoke_form \<Rightarrow> int \<Rightarrow> (failure + (string \<times> json) list) \<times> db" where
  "revoke_token cr d f now =
     (case get_application_by_client_id d (rv_client_id f) of
        None \<Rightarrow> (Inl (HTTPException 401 ''invalid_client''), d)
      | Some app \<Rightarrow>
          if \<not> verify_secret cr (rv_client_secret f) (client_secret_hash app)
          then (Inl (HTTPException 401 ''invalid_client''), d)
          else (Inr [], service_revoke_token d (rv_token f) (app_id app) (rv_token_type_hint f) now))"

subsection \<open>cleanup\_tokens (api/admin.py)\<close>

definition cleanup_tokens :: "db \<Rightarrow> int \<Rightarrow> (nat \<times> nat) \<times> db" where
  "cleanup_tokens d now =
     (case delete_where (\<lambda>c. code_expires_at c < now) (oauth_codes d) of
        (codes, deleted_codes) \<Rightarrow>
          (case delete_where (\<lambda>t. token_expires_at t < now) (oauth_tokens d) of
             (tokens, deleted_tokens) \<Rightarrow>
               ((deleted_codes, deleted_tokens), d\<lparr>oauth_codes := codes, oauth_tokens := tokens\<rparr>)))"

subsection \<open>Histories of the provider\<close>

text \<open>
  The requests that reach the code and token tables, in the order they commit. An
  authorize request carries the session user and the code string the service draws.
\<close>

datatype oauth_event =
    TokenRequest token_form int minted
  | AuthorizeRequest authorize_query "user option" string int
  | RevokeRequest revoke_form int
  | CleanupTokens int

fun oauth_step :: "crypto \<Rightarrow> db \<Rightarrow> oauth_event \<Rightarrow> db" where
  "oauth_step cr d (TokenRequest f now m) = snd (token cr d f now m)"
| "oauth_step cr d (AuthorizeRequest q usr new_code now) = snd (authorize d q usr new_code now)"
| "oauth_step cr d (RevokeRequest f now) = snd (revoke_token cr d f now)"
| "oauth_step cr d (CleanupTokens now) = snd (cleanup_tokens d now)"

definition isOK :: "'e + 'a \<Rightarrow> bool" where
  "isOK r = (case r of Inl e \<Rightarrow> False | Inr v \<Rightarrow> True)"

text \<open>Whether an event is a successful redemption of code \<open>c\<close> in store \<open>d\<close>.\<close>

fun redeems :: "crypto \<Rightarrow> string \<Rightarrow> db \<Rightarrow> oauth_event \<Rightarrow> bool" where
  "redeems cr c d (TokenRequest f now m) =
     (f_grant_type f = ''authorization_code'' \<and> f_code f = Some c \<and> isOK (fst (token cr d f now m)))"
| "redeems cr c d e = False"

text \<open>The number of successful redemptions of \<open>c\<close> along a history, and the store after it.\<close>

fun redemptions :: "crypto \<Rightarrow> string \<Rightarrow> db \<Rightarrow> oauth_event list \<Rightarrow> nat" where
  "redemptions cr c d [] = 0"
| "redemptions cr c d (e # es) =
     (if redeems cr c d e then 1 else 0) + redemptions cr c (oauth_step cr d e) es"

fun oauth_run :: "crypto \<Rightarrow> db \<Rightarrow> oauth_event list \<Rightarrow> db" where
  "oauth_run cr d [] = d"
| "oauth_run cr d (e # es) = oauth_run cr (oauth_step cr d e) es"

text \<open>No authorize request of the history draws the code string \<open>c\<close> again.\<close>

fun never_reissued :: "string \<Rightarrow> oauth_event list \<Rightarrow> bool" where
  "never_reissued c [] = True"
| "never_reissued c (AuthorizeRequest q usr new_code now # es) = (new_code \<noteq> c \<and> never_reissued c es)"
| "never_reissued c (e # es) = never_reissued c es"

text \<open>Every row of code \<open>c\<close> in the store is consumed.\<close>

definition spent :: "string \<Rightarrow> db \<Rightarrow> bool" where
  "spent c d = (\<forall>row \<in> set (oauth_codes d). code_value row = c \<longrightarrow> consumed_at row \<noteq> None)"

section \<open>Concrete stores and requests used in the worked instances\<close>

definition alice :: user where
  "alice = \<lparr>user_id = 1, email = ''alice@corp'', department = Some ''IT'',
            user_is_active = True, user_is_admin = True\<rparr>"

definition bob :: user where
  "bob = \<lparr>user_id = 2, email = ''bob@corp'', department = Some ''Finance'',
          user_is_active = True, user_is_admin = False\<rparr>"

definition wiki :: application where
  "wiki = \<lparr>app_id = 10, app_name = ''wiki'', client_id = ''abc'', client_secret_hash = ''hashed:s3cret'',
           redirect_uris = [''https://c/cb''], app_is_active = True, is_public = Some False,
           allowed_departments = Some []\<rparr>"

definition grant_bob_wiki :: application_access where
  "grant_bob_wiki = \<lparr>acc_user_id = Some 2, acc_group_id = None, acc_application_id = 10, granted_by = 1\<rparr>"

definition db0 :: db where
  "db0 = \<lparr>users = [alice, bob], applications = [wiki], application_access = [],
          user_group_members = [], audit_logs = [], oauth_codes = [], oauth_tokens = []\<rparr>"

definition db1 :: db where
  "db1 = db0\<lparr>application_access := [grant_bob_wiki]\<rparr>"

definition admin_req :: request where
  "admin_req = \<lparr>req_path = ''/api/admin/x'', x_forwarded_for = None,
                client_host = Some ''10.0.0.1'', user_agent = Some ''curl''\<rparr>"

text \<open>
  A stand-in for the library cryptography: the secret check compares with a tagged copy,
  and \<open>s256\<close> takes the verifier of RFC 7636 appendix B to its challenge and every other
  verifier elsewhere.
\<close>

definition test_crypto :: crypto where
  "test_crypto =
     \<lparr>verify_secret = (\<lambda>plain hashed. hashed = ''hashed:'' @ plain),
      s256 = (\<lambda>v. if v = ''dBjftJeZ4CVP-mB92K27uhbUJU1p1r_wW1gFWFOEjXk''
                    then ''E9Melhoa2OwvFrEMTJguCHaoeK1t8URWbuGJSstw-cM'' else ''-'')\<rparr>"

definition pkce_code :: oauth_code where
  "pkce_code =
     \<lparr>code_value = ''c0de'', code_user_id = 2, code_application_id = 10,
      code_redirect_uri = ''https://c/cb'', code_scopes = [''openid''], code_state = None,
      code_challenge = Some ''E9Melhoa2OwvFrEMTJguCHaoeK1t8URWbuGJSstw-cM'',
      code_challenge_method = Some ''S256'', code_expires_at = 600, consumed_at = None\<rparr>"

definition db2 :: db where
  "db2 = db0\<lparr>oauth_codes := [pkce_code]\<rparr>"

definition form_good :: token_form where
  "form_good =
     \<lparr>f_grant_type = ''authorization_code'', f_code = Some ''c0de'',
      f_redirect_uri = Some ''https://c/cb'', f_client_id = ''abc'', f_client_secret = None,
      f_refresh_token = None,
      f_code_verifier = Some ''dBjftJeZ4CVP-mB92K27uhbUJU1p1r_wW1gFWFOEjXk''\<rparr>"

definition form_wrong :: token_form where
  "form_wrong = form_good\<lparr>f_code_verifier := Some ''wrong''\<rparr>"

definition mint1 :: minted where
  "mint1 = \<lparr>new_access_token = ''at1'', new_refresh_token = ''rt1'', new_id_token = ''jwt1''\<rparr>"

definition evil_query :: authorize_query where
  "evil_query =
     \<lparr>q_response_type = ''code'', q_client_id = ''nobody'', q_redirect_uri = ''https://evil/cb'',
      q_scope = ''openid'', q_state = Some ''s'', q_code_challenge = None,
      q_code_challenge_method = None\<rparr>"

definition mismatch_query :: authorize_query where
  "mismatch_query = evil_query\<lparr>q_client_id := ''abc''\<rparr>"

definition token_type_query :: authorize_query where
  "token_type_query = mismatch_query\<lparr>q_response_type := ''token''\<rparr>"

definition s512_query :: authorize_query where
  "s512_query = mismatch_query\<lparr>q_code_challenge_method := Some ''S512''\<rparr>"

definition revoke_unknown :: revoke_form where
  "revoke_unknown =
     \<lparr>rv_token = ''no-such-token'', rv_token_type_hint = None, rv_client_id = ''abc'',
      rv_client_secret = ''s3cret''\<rparr>"

section \<open>Rate limiter: proofs\<close>

lemma limits_token: "limits ''/oauth/token'' = Some (20, 60)"
  by (simp add: limits_def limits_items_def)

lemma max_window_60: "max_window = 60"
  by (simp add: max_window_def limits_items_def)

lemma limit_key_token: "get_limit_key ''/oauth/token'' = ''/oauth/token''"
  by (simp add: get_limit_key_def)

lemma limits_window: "limits k = Some (m, w) \<Longrightarrow> w = 60"
  by (auto simp: limits_def limits_items_def split: if_splits)

lemma dispatch_token_open:
  assumes "token_request_from ip r" "requests ip ''/oauth/token'' = Some (c, ws)"
    "c < 20" "in_window ws (now, sweep)"
  shows "\<exists>requests'. dispatch requests r now sweep = (CallNext, requests') \<and>
           requests' ip ''/oauth/token'' = Some (c + 1, ws)"
  using assms
  by (auto simp: dispatch_def token_request_from_def limit_key_token check_rate_limit_def
      limits_token set_entry_def cleanup_old_entries_def max_window_60 in_window_def
      split: option.splits)

lemma dispatch_token_fresh:
  assumes "token_request_from ip r" "stale now (requests ip ''/oauth/token'')"
    "in_window now (now, sweep)"
  shows "\<exists>requests'. dispatch requests r now sweep = (CallNext, requests') \<and>
           requests' ip ''/oauth/token'' = Some (1, now)"
proof (cases "requests ip ''/oauth/token''")
  case None
  with assms show ?thesis
    by (auto simp: dispatch_def token_request_from_def limit_key_token check_rate_limit_def
        limits_token set_entry_def cleanup_old_entries_def max_window_60 in_window_def
        split: option.splits)
next
  case (Some e)
  obtain c ws where "e = (c, ws)" by (cases e)
  with Some assms show ?thesis
    by (auto simp: dispatch_def token_request_from_def limit_key_token check_rate_limit_def
        limits_token set_entry_def cleanup_old_entries_def max_window_60 in_window_def
        split: option.splits)
qed

lemma dispatch_token_full:
  assumes "token_request_from ip r" "requests ip ''/oauth/token'' = Some (20, ws)"
    "now - ws \<le> 60"
  shows "dispatch requests r now sweep =
           (Raise \<lparr>status_code = 429, detail = ''Too many requests. Please slow down.'',
                   headers = [(''Retry-After'', str_int (py_int (60 - (now - ws)) + 1))]\<rparr>,
            requests)"
  using assms
  by (auto simp: dispatch_def token_request_from_def limit_key_token check_rate_limit_def
      limits_token split: option.splits)

lemma run_window_fill:
  assumes "requests ip ''/oauth/token'' = Some (c, ws)"
    "c + length es \<le> 20"
    "\<forall>(r, now, sweep) \<in> set es. token_request_from ip r \<and> in_window ws (now, sweep)"
  shows "\<exists>requests'. run requests es = (replicate (length es) CallNext, requests') \<and>
           requests' ip ''/oauth/token'' = Some (c + length es, ws)"
  using assms
proof (induction es arbitrary: requests c)
  case Nil
  then show ?case by simp
next
  case (Cons e es)
  obtain r now sweep where e: "e = (r, now, sweep)" by (cases e)
  from Cons.prems e have "token_request_from ip r" "in_window ws (now, sweep)" "c < 20"
    by auto
  then have "\<exists>requests'. dispatch requests r now sweep = (CallNext, requests') \<and>
           requests' ip ''/oauth/token'' = Some (c + 1, ws)"
    using Cons.prems(1) by (intro dispatch_token_open)
  then obtain s1 where s1: "dispatch requests r now sweep = (CallNext, s1)"
    "s1 ip ''/oauth/token'' = Some (c + 1, ws)" by blast
  from Cons.prems have "c + 1 + length es \<le> 20"
    "\<forall>(r, now, sweep) \<in> set es. token_request_from ip r \<and> in_window ws (now, sweep)"
    by auto
  then have "\<exists>requests'. run s1 es = (replicate (length es) CallNext, requests') \<and>
           requests' ip ''/oauth/token'' = Some (c + 1 + length es, ws)"
    using s1(2) by (intro Cons.IH)
  then obtain s2 where "run s1 es = (replicate (length es) CallNext, s2)"
    "s2 ip ''/oauth/token'' = Some (c + 1 + length es, ws)" by blast
  with s1 e show ?case by simp
qed

lemma retry_bounds:
  assumes "ws \<le> now" "now - ws \<le> 60"
  shows "1 \<le> py_int (60 - (now - ws)) + 1" "py_int (60 - (now - ws)) + 1 \<le> 61"
    "ws < now \<Longrightarrow> py_int (60 - (now - ws)) + 1 \<le> 60"
  using assms by (auto simp: py_int_def floor_le_iff le_floor_iff floor_less_iff)


lemma run_append:
  "run s (xs @ ys) =
     (case run s xs of (ds, s') \<Rightarrow> (case run s' ys of (ds', s'') \<Rightarrow> (ds @ ds', s'')))"
  by (induction xs arbitrary: s) (auto split: prod.splits)

lemma token_window_run:
  assumes fresh: "stale t0 (requests ip ''/oauth/token'')"
    and first: "token_request_from ip r0" "in_window t0 (t0, sweep0)"
    and mid: "length es = 19"
      "\<forall>(r, now, sweep) \<in> set es. token_request_from ip r \<and> in_window t0 (now, sweep)"
    and last: "token_request_from ip r21" "t21 - t0 \<le> 60"
  shows "fst (run requests ((r0, t0, sweep0) # es @ [(r21, t21, sweep21)])) =
           replicate 20 CallNext @
           [Raise \<lparr>status_code = 429, detail = ''Too many requests. Please slow down.'',
                   headers = [(''Retry-After'', str_int (py_int (60 - (t21 - t0)) + 1))]\<rparr>]"
proof -
  from dispatch_token_fresh[of ip r0 t0 requests sweep0] first fresh
  obtain s1 where s1: "dispatch requests r0 t0 sweep0 = (CallNext, s1)"
    "s1 ip ''/oauth/token'' = Some (1, t0)" by blast
  have "\<exists>requests'. run s1 es = (replicate (length es) CallNext, requests') \<and>
           requests' ip ''/oauth/token'' = Some (1 + length es, t0)"
    using s1(2) mid by (intro run_window_fill) auto
  then obtain s2 where s2: "run s1 es = (replicate 19 CallNext, s2)"
    "s2 ip ''/oauth/token'' = Some (20, t0)" using mid(1) by auto
  have s3: "dispatch s2 r21 t21 sweep21 =
           (Raise \<lparr>status_code = 429, detail = ''Too many requests. Please slow down.'',
                   headers = [(''Retry-After'', str_int (py_int (60 - (t21 - t0)) + 1))]\<rparr>, s2)"
    using last(1) s2(2) last(2) by (rule dispatch_token_full)
  have r20: "replicate 20 CallNext = CallNext # replicate 19 CallNext"
    by (simp add: replicate_Suc [symmetric] del: replicate_Suc)
  show ?thesis
    using s1(1) s2(1) s3 by (simp add: run_append r20)
qed

lemma tok_req_from: "token_request_from ''10.0.0.1'' tok_req"
  by (simp add: token_request_from_def tok_req_def get_client_ip_def)

lemma other_req_ip: "get_client_ip other_req = ''10.0.0.2''"
  by (simp add: other_req_def get_client_ip_def split_comma_first_def py_strip_def py_isspace_def)

lemma tok_req_ip: "get_client_ip tok_req = ''10.0.0.1''"
  by (simp add: tok_req_def get_client_ip_def)

text \<open>
  C7 (amended). From one client IP whose \<open>/oauth/token\<close> entry is absent or expired, 21
  requests to \<open>/oauth/token\<close> with clock readings inside the 60 seconds after the first:
  the first 20 are passed on and the 21st is answered 429 with
  \<open>Retry-After = int(60 - elapsed) + 1\<close>, which lies between 1 and 61 inclusive, and
  between 1 and 60 whenever the 21st reading is strictly later than the window start.
\<close>

theorem token_21st_rejected:
  assumes "stale t0 (requests ip ''/oauth/token'')"
    and "token_request_from ip r0" "in_window t0 (t0, sweep0)"
    and "length es = 19"
      "\<forall>(r, now, sweep) \<in> set es. token_request_from ip r \<and> in_window t0 (now, sweep)"
    and "token_request_from ip r21" "t0 \<le> t21" "t21 - t0 \<le> 60"
  shows "fst (run requests ((r0, t0, sweep0) # es @ [(r21, t21, sweep21)])) =
           replicate 20 CallNext @
           [Raise \<lparr>status_code = 429, detail = ''Too many requests. Please slow down.'',
                   headers = [(''Retry-After'', str_int (py_int (60 - (t21 - t0)) + 1))]\<rparr>] \<and>
         1 \<le> py_int (60 - (t21 - t0)) + 1 \<and> py_int (60 - (t21 - t0)) + 1 \<le> 61 \<and>
         (t0 < t21 \<longrightarrow> py_int (60 - (t21 - t0)) + 1 \<le> 60)"
  using token_window_run[where requests = requests and ip = ip and ?t0.0 = t0 and ?r0.0 = r0
      and ?sweep0.0 = sweep0 and es = es and ?r21.0 = r21 and ?t21.0 = t21 and ?sweep21.0 = sweep21]
    retry_bounds[OF assms(7,8)] assms(1-6) assms(8)
  by blast

theorem token_21st_rejected_witness:
  "fst (run empty_store
         ((tok_req, 0, None) # replicate 19 (tok_req, 1, Some 2) @ [(tok_req, 5 / 2, None)])) =
     replicate 20 CallNext @
     [Raise \<lparr>status_code = 429, detail = ''Too many requests. Please slow down.'',
             headers = [(''Retry-After'', ''58'')]\<rparr>]"
proof -
  have digits: "str_int (py_int (60 - (5 / 2 - 0)) + 1) = ''58''"
    by (simp add: py_int_def str_int_def str_nat.simps)
  have "fst (run empty_store
          ((tok_req, 0, None) # replicate 19 (tok_req, 1, Some 2) @ [(tok_req, 5 / 2, None)])) =
           replicate 20 CallNext @
           [Raise \<lparr>status_code = 429, detail = ''Too many requests. Please slow down.'',
                   headers = [(''Retry-After'', str_int (py_int (60 - (5 / 2 - 0)) + 1))]\<rparr>] \<and>
         1 \<le> py_int (60 - (5 / 2 - 0)) + 1 \<and> py_int (60 - (5 / 2 - 0)) + 1 \<le> 61 \<and>
         ((0::real) < 5 / 2 \<longrightarrow> py_int (60 - (5 / 2 - 0)) + 1 \<le> 60)"
  proof (rule token_21st_rejected [where ip = "''10.0.0.1''"])
    show "stale 0 (empty_store ''10.0.0.1'' ''/oauth/token'')" by (simp add: empty_store_def)
    show "token_request_from ''10.0.0.1'' tok_req" by (rule tok_req_from)
    show "in_window 0 (0, None)" by (simp add: in_window_def)
    show "length (replicate 19 (tok_req, 1::real, Some (2::real))) = 19" by simp
    show "\<forall>(r, now, sweep) \<in> set (replicate 19 (tok_req, 1, Some 2)).
            token_request_from ''10.0.0.1'' r \<and> in_window 0 (now, sweep)"
      using tok_req_from by (simp add: in_window_def)
    show "token_request_from ''10.0.0.1'' tok_req" by (rule tok_req_from)
    show "(0::real) \<le> 5 / 2" by simp
    show "(5::real) / 2 - 0 \<le> 60" by simp
  qed
  then show ?thesis unfolding digits by blast
qed

text \<open>
  C7 as stated fails: 21 requests carrying the same clock reading give
  \<open>Retry-After: 61\<close>, outside 1..60.
\<close>

theorem retry_after_61_counterexample:
  "fst (run empty_store
         ((tok_req, 0, None) # replicate 19 (tok_req, 0, None) @ [(tok_req, 0, None)])) =
     replicate 20 CallNext @
     [Raise \<lparr>status_code = 429, detail = ''Too many requests. Please slow down.'',
             headers = [(''Retry-After'', ''61'')]\<rparr>]"
proof -
  have digits: "str_int (py_int (60 - (0 - 0)) + 1) = ''61''"
    by (simp add: py_int_def str_int_def str_nat.simps)
  have "fst (run empty_store
          ((tok_req, 0, None) # replicate 19 (tok_req, 0, None) @ [(tok_req, 0, None)])) =
           replicate 20 CallNext @
           [Raise \<lparr>status_code = 429, detail = ''Too many requests. Please slow down.'',
                   headers = [(''Retry-After'', str_int (py_int (60 - (0 - 0)) + 1))]\<rparr>]"
  proof (rule token_window_run [where ip = "''10.0.0.1''"])
    show "stale 0 (empty_store ''10.0.0.1'' ''/oauth/token'')" by (simp add: empty_store_def)
    show "token_request_from ''10.0.0.1'' tok_req" by (rule tok_req_from)
    show "in_window 0 (0, None)" by (simp add: in_window_def)
    show "length (replicate 19 (tok_req, 0::real, None :: real option)) = 19" by simp
    show "\<forall>(r, now, sweep) \<in> set (replicate 19 (tok_req, 0, None)).
            token_request_from ''10.0.0.1'' r \<and> in_window 0 (now, sweep)"
      using tok_req_from by (simp add: in_window_def)
    show "token_request_from ''10.0.0.1'' tok_req" by (rule tok_req_from)
    show "(0::real) - 0 \<le> 60" by simp
  qed
  then show ?thesis unfolding digits .
qed

lemma stale_mono: "stale T e \<Longrightarrow> T \<le> T' \<Longrightarrow> stale T' e"
  by (cases e) auto

lemma slot_rel_mono: "slot_rel T a s1 s2 \<Longrightarrow> T \<le> T' \<Longrightarrow> slot_rel T' a s1 s2"
  unfolding slot_rel_def by (meson stale_mono)

lemma slot_rel_refl: "slot_rel T a s s"
  by (simp add: slot_rel_def)

lemma stale_cleanup: "stale T (s a k) \<Longrightarrow> stale T (cleanup_old_entries s t a k)"
  by (auto simp: cleanup_old_entries_def split: option.splits)

lemma cleanup_cases:
  "cleanup_old_entries s t a k = s a k \<or> (cleanup_old_entries s t a k = None \<and> (\<exists>c ws. s a k = Some (c, ws) \<and> t - ws > 120))"
  by (auto simp: cleanup_old_entries_def max_window_60 split: option.splits)

lemma slot_rel_cleanup_both:
  assumes "slot_rel T a s1 s2" "T \<le> t"
  shows "slot_rel t a (cleanup_old_entries s1 t) (cleanup_old_entries s2 t)"
  unfolding slot_rel_def
proof
  fix k
  from assms have "s1 a k = s2 a k \<or> (stale t (s1 a k) \<and> stale t (s2 a k))"
    unfolding slot_rel_def by (meson stale_mono)
  then show "cleanup_old_entries s1 t a k = cleanup_old_entries s2 t a k \<or>
      (stale t (cleanup_old_entries s1 t a k) \<and> stale t (cleanup_old_entries s2 t a k))"
  proof
    assume "s1 a k = s2 a k"
    then show ?thesis by (simp add: cleanup_old_entries_def)
  next
    assume "stale t (s1 a k) \<and> stale t (s2 a k)"
    then show ?thesis by (simp add: stale_cleanup)
  qed
qed

lemma slot_rel_cleanup_left:
  assumes "slot_rel T a s1 s2" "T \<le> t"
  shows "slot_rel t a (cleanup_old_entries s1 t) s2"
  unfolding slot_rel_def
proof
  fix k
  from assms have h: "s1 a k = s2 a k \<or> (stale t (s1 a k) \<and> stale t (s2 a k))"
    unfolding slot_rel_def by (meson stale_mono)
  from cleanup_cases[of s1 t a k]
  show "cleanup_old_entries s1 t a k = s2 a k \<or>
      (stale t (cleanup_old_entries s1 t a k) \<and> stale t (s2 a k))"
  proof
    assume "cleanup_old_entries s1 t a k = s1 a k"
    with h show ?thesis by auto
  next
    assume d: "cleanup_old_entries s1 t a k = None \<and> (\<exists>c ws. s1 a k = Some (c, ws) \<and> t - ws > 120)"
    then have "stale t (s1 a k)" by auto
    with h have "stale t (s2 a k)" by auto
    with d show ?thesis by simp
  qed
qed

lemma check_other_slot:
  "check_rate_limit s ip k now = Inr (d, s') \<Longrightarrow> ip \<noteq> a \<Longrightarrow> s' a = s a"
  by (auto simp: check_rate_limit_def set_entry_def split: option.splits if_splits)

lemma check_related:
  assumes "slot_rel T a s1 s2" "T \<le> now"
  shows "(\<exists>e. check_rate_limit s1 a k now = Inl e \<and> check_rate_limit s2 a k now = Inl e) \<or>
         (\<exists>d s1' s2'. check_rate_limit s1 a k now = Inr (d, s1') \<and>
                      check_rate_limit s2 a k now = Inr (d, s2') \<and> slot_rel now a s1' s2')"
proof (cases "limits k")
  case None
  then show ?thesis by (simp add: check_rate_limit_def)
next
  case (Some lim)
  obtain m w where lim: "lim = (m, w)" by (cases lim)
  with Some have w: "w = 60" using limits_window by blast
  from assms have rel: "slot_rel now a s1 s2" by (rule slot_rel_mono)
  then have "s1 a k = s2 a k \<or> (stale now (s1 a k) \<and> stale now (s2 a k))"
    by (simp add: slot_rel_def)
  then show ?thesis
  proof
    assume eq: "s1 a k = s2 a k"
    show ?thesis
      using eq rel Some lim
      by (auto simp: check_rate_limit_def set_entry_def slot_rel_def split: option.splits)
  next
    assume st: "stale now (s1 a k) \<and> stale now (s2 a k)"
    then have "check_rate_limit s1 a k now = Inr ((True, 0), set_entry s1 a k (1, now))"
      using Some lim w by (cases "s1 a k") (auto simp: check_rate_limit_def)
    moreover from st have "check_rate_limit s2 a k now = Inr ((True, 0), set_entry s2 a k (1, now))"
      using Some lim w by (cases "s2 a k") (auto simp: check_rate_limit_def)
    moreover have "slot_rel now a (set_entry s1 a k (1, now)) (set_entry s2 a k (1, now))"
      using rel by (auto simp: slot_rel_def set_entry_def)
    ultimately show ?thesis by blast
  qed
qed

lemma dispatch_related:
  assumes "slot_rel T a s1 s2" "T \<le> now" "get_client_ip r = a"
    "case sweep of None \<Rightarrow> True | Some t \<Rightarrow> now \<le> t"
  shows "\<exists>d s1' s2'. dispatch s1 r now sweep = (d, s1') \<and> dispatch s2 r now sweep = (d, s2') \<and>
           slot_rel (case sweep of None \<Rightarrow> now | Some t \<Rightarrow> t) a s1' s2'"
proof (cases "req_path r \<in> set [''/'', ''/health'', ''/docs'', ''/openapi.json'']")
  case True
  have "slot_rel (case sweep of None \<Rightarrow> now | Some t \<Rightarrow> t) a s1 s2"
    using assms by (auto intro: slot_rel_mono split: option.splits)
  with True show ?thesis by (simp add: dispatch_def)
next
  case False
  from check_related[OF assms(1,2), of "get_limit_key (req_path r)"]
  show ?thesis
  proof (elim disjE exE conjE)
    fix e
    assume "check_rate_limit s1 a (get_limit_key (req_path r)) now = Inl e"
      "check_rate_limit s2 a (get_limit_key (req_path r)) now = Inl e"
    then show ?thesis
      using False assms by (auto simp: dispatch_def Let_def split: option.splits intro: slot_rel_mono)
  next
    fix d s1' s2'
    assume c: "check_rate_limit s1 a (get_limit_key (req_path r)) now = Inr (d, s1')"
      "check_rate_limit s2 a (get_limit_key (req_path r)) now = Inr (d, s2')"
      and rel: "slot_rel now a s1' s2'"
    obtain al ra where d: "d = (al, ra)" by (cases d)
    show ?thesis
    proof (cases sweep)
      case None
      then show ?thesis using False assms(3) c d rel by (auto simp: dispatch_def Let_def)
    next
      case (Some t)
      with assms(4) have "now \<le> t" by simp
      then have "slot_rel t a s1' s2'" "slot_rel t a (cleanup_old_entries s1' t) (cleanup_old_entries s2' t)"
        using rel by (auto intro: slot_rel_mono slot_rel_cleanup_both)
      then show ?thesis using False assms(3) c d Some by (auto simp: dispatch_def Let_def)
    qed
  qed
qed

lemma dispatch_other:
  assumes "slot_rel T a s1 s2" "T \<le> now" "get_client_ip r \<noteq> a"
    "case sweep of None \<Rightarrow> True | Some t \<Rightarrow> now \<le> t"
  shows "slot_rel (case sweep of None \<Rightarrow> now | Some t \<Rightarrow> t) a (snd (dispatch s1 r now sweep)) s2"
proof -
  let ?T' = "case sweep of None \<Rightarrow> now | Some t \<Rightarrow> t"
  have T': "T \<le> ?T'" using assms(2,4) by (auto split: option.splits)
  have base: "slot_rel ?T' a s1 s2" using assms(1) T' by (rule slot_rel_mono)
  show ?thesis
  proof (cases "req_path r \<in> set [''/'', ''/health'', ''/docs'', ''/openapi.json'']")
    case True
    with base show ?thesis by (simp add: dispatch_def)
  next
    case False
    show ?thesis
    proof (cases "check_rate_limit s1 (get_client_ip r) (get_limit_key (req_path r)) now")
      case (Inl e)
      with False base show ?thesis by (simp add: dispatch_def Let_def)
    next
      case (Inr p)
      obtain al ra s1' where p: "p = ((al, ra), s1')" by (cases p) auto
      from Inr p assms(3) have same: "s1' a = s1 a" by (auto dest: check_other_slot)
      then have r1: "slot_rel T a s1' s2" using assms(1) by (simp add: slot_rel_def)
      show ?thesis
      proof (cases sweep)
        case None
        then show ?thesis using False Inr p r1 T' by (auto simp: dispatch_def Let_def intro: slot_rel_mono)
      next
        case (Some t)
        then have "T \<le> t" using T' by simp
        then have "slot_rel t a s1' s2" "slot_rel t a (cleanup_old_entries s1' t) s2"
          using r1 by (auto intro: slot_rel_mono slot_rel_cleanup_left)
        then show ?thesis using False Inr p Some by (auto simp: dispatch_def Let_def)
      qed
    qed
  qed
qed

lemma run_projection:
  assumes "slot_rel T a s1 s2" "ordered T es"
  shows "outputs_for a es (fst (run s1 es)) = fst (run s2 (from_ip a es))"
  using assms
proof (induction es arbitrary: T s1 s2)
  case Nil
  then show ?case by (simp add: outputs_for_def from_ip_def)
next
  case (Cons e es)
  obtain r now sweep where e: "e = (r, now, sweep)" by (cases e)
  let ?T' = "case sweep of None \<Rightarrow> now | Some t \<Rightarrow> t"
  from Cons.prems(2) e have ord: "T \<le> now" "case sweep of None \<Rightarrow> True | Some t \<Rightarrow> now \<le> t"
    "ordered ?T' es" by (auto split: option.splits)
  show ?case
  proof (cases "get_client_ip r = a")
    case True
    from dispatch_related[OF Cons.prems(1) ord(1) True ord(2)]
    obtain d s1' s2' where d: "dispatch s1 r now sweep = (d, s1')" "dispatch s2 r now sweep = (d, s2')"
      "slot_rel ?T' a s1' s2'" by blast
    from Cons.IH[OF d(3) ord(3)]
    have "outputs_for a es (fst (run s1' es)) = fst (run s2' (from_ip a es))" .
    then show ?thesis using e True d
      by (auto simp add: outputs_for_def from_ip_def split: prod.splits)
  next
    case False
    obtain d s1' where d: "dispatch s1 r now sweep = (d, s1')" by (cases "dispatch s1 r now sweep")
    from dispatch_other[OF Cons.prems(1) ord(1) False ord(2)] d
    have "slot_rel ?T' a s1' s2" by simp
    from Cons.IH[OF this ord(3)]
    have "outputs_for a es (fst (run s1' es)) = fst (run s2 (from_ip a es))" .
    then show ?thesis using e False d
      by (auto simp add: outputs_for_def from_ip_def split: prod.splits)
  qed
qed


text \<open>
  C9. Two traces in clock order that contain the same requests from client IP \<open>a\<close>, run
  from the same store: the results for \<open>a\<close>'s requests (passed on, or 429 with its
  \<open>Retry-After\<close>) are the same, whatever the requests from other IPs are.
\<close>

theorem rate_limit_noninterference:
  assumes "ordered T1 es1" "ordered T2 es2" "from_ip a es1 = from_ip a es2"
  shows "outputs_for a es1 (fst (run requests es1)) = outputs_for a es2 (fst (run requests es2))"
proof -
  have "outputs_for a es1 (fst (run requests es1)) = fst (run requests (from_ip a es1))"
    using slot_rel_refl assms(1) by (rule run_projection)
  moreover have "outputs_for a es2 (fst (run requests es2)) = fst (run requests (from_ip a es2))"
    using slot_rel_refl assms(2) by (rule run_projection)
  ultimately show ?thesis using assms(3) by simp
qed

theorem rate_limit_noninterference_witness:
  "outputs_for ''10.0.0.1'' trace_mixed (fst (run empty_store trace_mixed)) =
   outputs_for ''10.0.0.1'' trace_alone (fst (run empty_store trace_alone))"
proof (rule rate_limit_noninterference [where ?T1.0 = 0 and ?T2.0 = 0])
  show "ordered 0 trace_mixed" by (simp add: trace_mixed_def)
  show "ordered 0 trace_alone" by (simp add: trace_alone_def)
  show "from_ip ''10.0.0.1'' trace_mixed = from_ip ''10.0.0.1'' trace_alone"
    by (simp add: trace_mixed_def trace_alone_def from_ip_def tok_req_ip other_req_ip)
qed

section \<open>Admin surface and listing: proofs\<close>

text \<open>
  C10. An admin cannot strip their own admin status or deactivate themselves in bulk: a
  user update whose target is the acting admin (whose row the lookup finds) with
  \<open>is_admin = False\<close>, and a bulk request listing the acting admin with action
  \<open>deactivate\<close> or \<open>remove_admin\<close>, both fail with HTTP 400 and leave the store as it was.
\<close>

theorem no_self_demotion:
  "(filter (\<lambda>u. user_id u = user_id admin) (users d) = [usr] \<and> upd_is_admin data = Some False \<longrightarrow>
      update_user d (user_id admin) data req admin =
        (Inl (HTTPException 400 ''Cannot remove your own admin status''), d)) \<and>
   (user_id admin \<in> set (bulk_user_ids b) \<and> bulk_action b \<in> {''deactivate'', ''remove_admin''} \<longrightarrow>
      bulk_user_action d b req admin =
        (Inl (HTTPException 400 ''Cannot perform this action on yourself''), d))"
proof (intro conjI impI)
  assume a: "filter (\<lambda>u. user_id u = user_id admin) (users d) = [usr] \<and> upd_is_admin data = Some False"
  then have "usr \<in> set (filter (\<lambda>u. user_id u = user_id admin) (users d))" by simp
  then have "user_id usr = user_id admin" by simp
  with a show "update_user d (user_id admin) data req admin =
        (Inl (HTTPException 400 ''Cannot remove your own admin status''), d)"
    by (simp add: update_user_def)
next
  assume "user_id admin \<in> set (bulk_user_ids b) \<and> bulk_action b \<in> {''deactivate'', ''remove_admin''}"
  then show "bulk_user_action d b req admin =
        (Inl (HTTPException 400 ''Cannot perform this action on yourself''), d)"
    by (auto simp: bulk_user_action_def)
qed

theorem no_self_demotion_witness:
  "update_user db0 1 \<lparr>upd_is_active = None, upd_is_admin = Some False\<rparr> admin_req alice =
     (Inl (HTTPException 400 ''Cannot remove your own admin status''), db0) \<and>
   bulk_user_action db0 \<lparr>bulk_user_ids = [2, 1], bulk_action = ''deactivate''\<rparr> admin_req alice =
     (Inl (HTTPException 400 ''Cannot perform this action on yourself''), db0)"
  using no_self_demotion [of alice db0 alice "\<lparr>upd_is_active = None, upd_is_admin = Some False\<rparr>"
      admin_req "\<lparr>bulk_user_ids = [2, 1], bulk_action = ''deactivate''\<rparr>"]
  by (simp add: alice_def bob_def db0_def)

subsection \<open>Access grants\<close>

lemma grant_users_existing:
  assumes "\<forall>u \<in> set us. \<exists>r. filter (\<lambda>a. acc_user_id a = Some u \<and> acc_application_id a = aid) rows = [r]"
  shows "grant_users aid admin_id us rows granted = Inr (rows, granted)"
  using assms by (induction us) auto

lemma grant_groups_existing:
  assumes "\<forall>g \<in> set gs. \<exists>r. filter (\<lambda>a. acc_group_id a = Some g \<and> acc_application_id a = aid) rows = [r]"
  shows "grant_groups aid admin_id gs rows granted = Inr (rows, granted)"
  using assms by (induction gs) auto

lemma filter_none: "(\<forall>x \<in> set xs. \<not> p x) \<Longrightarrow> filter p xs = []"
  by (induction xs) auto

lemma delete_where_none: "(\<forall>x \<in> set xs. \<not> p x) \<Longrightarrow> delete_where p xs = (xs, 0)"
  by (simp add: delete_where_def filter_none)

text \<open>
  C8. Granting is idempotent and revoking is idempotent: when the application exists and
  every requested user and group already holds its (single) grant row, \<open>grant_access\<close>
  counts 0 and returns the store unchanged, no audit row included; when no grant row of
  the application matches a requested user or group, \<open>revoke_access\<close> counts 0 and returns
  the store unchanged.
\<close>

theorem grant_revoke_idempotent:
  "(filter (\<lambda>a. app_id a = grant_application_id g) (applications d) = [app] \<and>
    (\<forall>u \<in> set (grant_user_ids g). \<exists>r.
        filter (\<lambda>a. acc_user_id a = Some u \<and> acc_application_id a = grant_application_id g)
          (application_access d) = [r]) \<and>
    (\<forall>gr \<in> set (grant_group_ids g). \<exists>r.
        filter (\<lambda>a. acc_group_id a = Some gr \<and> acc_application_id a = grant_application_id g)
          (application_access d) = [r])
    \<longrightarrow> grant_access d g req admin = (Inr 0, d)) \<and>
   (length (filter (\<lambda>a. app_id a = revoke_application_id rv) (applications d)) \<le> 1 \<and>
    (\<forall>r \<in> set (application_access d).
        acc_application_id r = revoke_application_id rv \<longrightarrow>
          (\<forall>u. acc_user_id r = Some u \<longrightarrow> u \<notin> set (revoke_user_ids rv)) \<and>
          (\<forall>gr. acc_group_id r = Some gr \<longrightarrow> gr \<notin> set (revoke_group_ids rv)))
    \<longrightarrow> revoke_access d rv req admin = (Inr 0, d))"
proof (intro conjI impI)
  assume a: "filter (\<lambda>a. app_id a = grant_application_id g) (applications d) = [app] \<and>
    (\<forall>u \<in> set (grant_user_ids g). \<exists>r.
        filter (\<lambda>a. acc_user_id a = Some u \<and> acc_application_id a = grant_application_id g)
          (application_access d) = [r]) \<and>
    (\<forall>gr \<in> set (grant_group_ids g). \<exists>r.
        filter (\<lambda>a. acc_group_id a = Some gr \<and> acc_application_id a = grant_application_id g)
          (application_access d) = [r])"
  then have u: "grant_users (grant_application_id g) (user_id admin) (grant_user_ids g)
                  (application_access d) 0 = Inr (application_access d, 0)"
    by (intro grant_users_existing) simp
  from a have gr: "grant_groups (grant_application_id g) (user_id admin) (grant_group_ids g)
                  (application_access d) 0 = Inr (application_access d, 0)"
    by (intro grant_groups_existing) simp
  from a u gr show "grant_access d g req admin = (Inr 0, d)"
    by (simp add: grant_access_def)
next
  assume a: "length (filter (\<lambda>a. app_id a = revoke_application_id rv) (applications d)) \<le> 1 \<and>
    (\<forall>r \<in> set (application_access d).
        acc_application_id r = revoke_application_id rv \<longrightarrow>
          (\<forall>u. acc_user_id r = Some u \<longrightarrow> u \<notin> set (revoke_user_ids rv)) \<and>
          (\<forall>gr. acc_group_id r = Some gr \<longrightarrow> gr \<notin> set (revoke_group_ids rv)))"
  then obtain ap where ap: "scalar_one_or_none (filter (\<lambda>a. app_id a = revoke_application_id rv) (applications d)) = Inr ap"
    by (cases "filter (\<lambda>a. app_id a = revoke_application_id rv) (applications d)" rule: scalar_one_or_none.cases) auto
  have du: "delete_where
              (\<lambda>a. (case acc_user_id a of Some u \<Rightarrow> u \<in> set (revoke_user_ids rv) | None \<Rightarrow> False) \<and>
                    acc_application_id a = revoke_application_id rv)
              (application_access d) = (application_access d, 0)"
    using a by (intro delete_where_none) (auto split: option.splits)
  have dg: "delete_where
              (\<lambda>a. (case acc_group_id a of Some g \<Rightarrow> g \<in> set (revoke_group_ids rv) | None \<Rightarrow> False) \<and>
                    acc_application_id a = revoke_application_id rv)
              (application_access d) = (application_access d, 0)"
    using a by (intro delete_where_none) (auto split: option.splits)
  show "revoke_access d rv req admin = (Inr 0, d)"
    using ap du dg by (simp add: revoke_access_def)
qed

theorem grant_revoke_idempotent_witness:
  "grant_access db1 \<lparr>grant_application_id = 10, grant_user_ids = [2], grant_group_ids = []\<rparr>
      admin_req alice = (Inr 0, db1) \<and>
   revoke_access db0 \<lparr>revoke_application_id = 10, revoke_user_ids = [2], revoke_group_ids = [7]\<rparr>
      admin_req alice = (Inr 0, db0)"
  using grant_revoke_idempotent [of "\<lparr>grant_application_id = 10, grant_user_ids = [2], grant_group_ids = []\<rparr>"
      db1 wiki admin_req alice
      "\<lparr>revoke_application_id = 10, revoke_user_ids = [2], revoke_group_ids = [7]\<rparr>"]
    grant_revoke_idempotent [of "\<lparr>grant_application_id = 10, grant_user_ids = [2], grant_group_ids = []\<rparr>"
      db0 wiki admin_req alice
      "\<lparr>revoke_application_id = 10, revoke_user_ids = [2], revoke_group_ids = [7]\<rparr>"]
  by (simp add: db0_def db1_def wiki_def grant_bob_wiki_def)

subsection \<open>Audit coverage\<close>

text \<open>
  C3 at \<open>set_application_public\<close>: the toggle commits a changed \<open>is_public\<close> and the audit
  log stays empty, where the claim requires one row for the mutation.
\<close>

theorem set_public_writes_no_audit_row:
  "set_application_public db0 10 True alice =
     (Inr (10, True), db0\<lparr>applications := [wiki\<lparr>is_public := Some True\<rparr>]\<rparr>) \<and>
   audit_logs (snd (set_application_public db0 10 True alice)) = [] \<and>
   applications (snd (set_application_public db0 10 True alice)) \<noteq> applications db0"
  by (simp add: set_application_public_def db0_def wiki_def)

subsection \<open>Application listing\<close>

text \<open>
  C2 as stated fails: a non-admin user without any grant is shown an application that is
  not public, which the principal gate of the access decision refuses.
\<close>

theorem listing_ignores_principal_gate_counterexample:
  "wiki \<in> set (list_applications db0 bob) \<and> \<not> spec_may_use db0 bob wiki"
  by (simp add: list_applications_def spec_may_use_def principal_gate_def department_gate_def
      db0_def bob_def wiki_def)

text \<open>
  C2 (amended). The set of applications the listing returns is exactly the set of
  applications that are active and pass the department gate; the principal gate is not
  applied.
\<close>

theorem listing_is_active_and_department:
  "set (list_applications d u) =
     {a \<in> set (applications d). app_is_active a \<and> department_gate u a}"
  by (auto simp: list_applications_def department_gate_def Let_def)

theorem listing_is_active_and_department_witness:
  "set (list_applications db0 bob) = {wiki}"
proof -
  have "{a \<in> set (applications db0). app_is_active a \<and> department_gate bob a} = {wiki}"
    by (auto simp: department_gate_def db0_def wiki_def)
  then show ?thesis using listing_is_active_and_department [of db0 bob] by simp
qed

section \<open>OAuth2 provider: proofs\<close>

lemma exchange_cases:
  "exchange_code_for_tokens cr d cd cid secret uri verifier now m = invalid_grant d \<or>
   exchange_code_for_tokens cr d cd cid secret uri verifier now m = invalid_client d \<or>
   (\<exists>row. find (\<lambda>c. code_value c = cd) (oauth_codes d) = Some row \<and> consumed_at row = None \<and>
          exchange_code_for_tokens cr d cd cid secret uri verifier now m = issue_tokens d row now m)"
  unfolding exchange_code_for_tokens_def
  by (simp split: option.splits)

lemma truthy_invalid [simp]:
  "truthy (Some ''invalid_grant'')" "truthy (Some ''invalid_client'')" "\<not> truthy None"
  by (simp_all add: truthy_def)

lemma or_empty_simps [simp]: "or_empty (Some s) = s" "or_empty None = []"
  by (simp_all add: or_empty_def)

lemma find_code_value: "find (\<lambda>c. code_value c = cd) rows = Some row \<Longrightarrow> code_value row = cd \<and> row \<in> set rows"
  by (auto simp: find_Some_iff)

lemma spent_issue: "code_value row = c \<Longrightarrow> spent c (snd (issue_tokens d row now m))"
  by (auto simp: spent_def issue_tokens_def)

lemma spent_issue_other: "spent c d \<Longrightarrow> spent c (snd (issue_tokens d row now m))"
  by (auto simp: spent_def issue_tokens_def)

lemma exchange_spent_keeps:
  "spent c d \<Longrightarrow> spent c (snd (exchange_code_for_tokens cr d cd cid secret uri verifier now m))"
  using exchange_cases[of cr d cd cid secret uri verifier now m]
  by (auto simp: invalid_grant_def invalid_client_def spent_issue_other)

lemma refresh_codes:
  "oauth_codes (snd (refresh_tokens cr d rt cid secret now m)) = oauth_codes d"
  by (auto simp: refresh_tokens_def invalid_grant_def invalid_client_def split: option.splits)

lemma spent_cong: "oauth_codes d' = oauth_codes d \<Longrightarrow> spent c d' = spent c d"
  by (simp add: spent_def)

lemma token_store_cases:
  "snd (token cr d f now m) = d \<or>
   snd (token cr d f now m) =
     snd (exchange_code_for_tokens cr d (or_empty (f_code f)) (f_client_id f)
              (f_client_secret f) (or_empty (f_redirect_uri f)) (f_code_verifier f) now m) \<or>
   snd (token cr d f now m) =
     snd (refresh_tokens cr d (or_empty (f_refresh_token f)) (f_client_id f)
              (f_client_secret f) now m)"
  unfolding token_def by (simp split: prod.splits)

lemma token_spent_keeps: "spent c d \<Longrightarrow> spent c (snd (token cr d f now m))"
proof -
  assume s: "spent c d"
  have a: "spent c (snd (exchange_code_for_tokens cr d (or_empty (f_code f)) (f_client_id f)
              (f_client_secret f) (or_empty (f_redirect_uri f)) (f_code_verifier f) now m))"
    using s by (rule exchange_spent_keeps)
  have b: "spent c (snd (refresh_tokens cr d (or_empty (f_refresh_token f)) (f_client_id f)
              (f_client_secret f) now m))"
    using s by (simp add: spent_cong[OF refresh_codes])
  show ?thesis using s a b token_store_cases[of cr d f now m] by metis
qed

lemma create_code_codes:
  "snd (create_authorization_code d usr app uri scopes st challenge method new_code now) =
     d\<lparr>oauth_codes := oauth_codes d @
          [\<lparr>code_value = new_code, code_user_id = user_id usr, code_application_id = app_id app,
            code_redirect_uri = uri, code_scopes = scopes, code_state = st,
            code_challenge = challenge, code_challenge_method = method,
            code_expires_at = now + 600, consumed_at = None\<rparr>]\<rparr>"
  by (simp add: create_authorization_code_def)

lemma authorize_codes:
  "oauth_codes (snd (authorize d q usr new_code now)) = oauth_codes d \<or>
   (\<exists>row. code_value row = new_code \<and> consumed_at row = None \<and>
      oauth_codes (snd (authorize d q usr new_code now)) = oauth_codes d @ [row])"
  unfolding authorize_def Let_def
  by (simp add: create_authorization_code_def split: option.splits)

lemma authorize_spent_keeps:
  "spent c d \<Longrightarrow> new_code \<noteq> c \<Longrightarrow> spent c (snd (authorize d q usr new_code now))"
  using authorize_codes[of d q usr new_code now] by (auto simp: spent_def)

lemma revoke_codes: "oauth_codes (snd (revoke_token cr d f now)) = oauth_codes d"
  unfolding revoke_token_def service_revoke_token_def by (simp split: option.splits)

lemma cleanup_spent_keeps: "spent c d \<Longrightarrow> spent c (snd (cleanup_tokens d now))"
  by (auto simp: cleanup_tokens_def delete_where_def spent_def)

lemma step_spent_keeps:
  "spent c d \<Longrightarrow> never_reissued c (e # es) \<Longrightarrow> spent c (oauth_step cr d e)"
proof (cases e)
  case (TokenRequest f now m)
  assume "spent c d"
  then show ?thesis using TokenRequest by (simp add: token_spent_keeps)
next
  case (AuthorizeRequest q usr new_code now)
  assume "spent c d" "never_reissued c (e # es)"
  then show ?thesis using AuthorizeRequest by (simp add: authorize_spent_keeps)
next
  case (RevokeRequest f now)
  assume "spent c d"
  then show ?thesis using RevokeRequest by (simp add: spent_cong[OF revoke_codes])
next
  case (CleanupTokens now)
  assume "spent c d"
  then show ?thesis using CleanupTokens by (simp add: cleanup_spent_keeps)
qed

lemma never_reissued_tail: "never_reissued c (e # es) \<Longrightarrow> never_reissued c es"
  by (cases e) simp_all

lemma run_spent_keeps:
  "spent c d \<Longrightarrow> never_reissued c es \<Longrightarrow> spent c (oauth_run cr d es)"
proof (induction es arbitrary: d)
  case Nil
  then show ?case by simp
next
  case (Cons e es)
  have "spent c (oauth_step cr d e)" using Cons.prems by (rule step_spent_keeps)
  moreover have "never_reissued c es" using Cons.prems(2) by (rule never_reissued_tail)
  ultimately show ?case using Cons.IH by simp
qed

lemma spent_exchange_rejects:
  assumes "spent c d"
  shows "exchange_code_for_tokens cr d c cid secret uri verifier now m = invalid_grant d"
proof (cases "find (\<lambda>r. code_value r = c) (oauth_codes d)")
  case None
  then show ?thesis by (simp add: exchange_code_for_tokens_def)
next
  case (Some row)
  then have "consumed_at row \<noteq> None" using assms find_code_value[OF Some] by (auto simp: spent_def)
  with Some show ?thesis by (simp add: exchange_code_for_tokens_def)
qed

lemma token_code_branch:
  assumes "f_grant_type f = ''authorization_code''"
  shows "token cr d f now m =
     (if \<not> truthy (f_code f) \<or> \<not> truthy (f_redirect_uri f)
      then (Inl (HTTPException 400 ''Missing code or redirect_uri''), d)
      else (case exchange_code_for_tokens cr d (or_empty (f_code f)) (f_client_id f) (f_client_secret f)
                  (or_empty (f_redirect_uri f)) (f_code_verifier f) now m of
             ((tokens, error), d') \<Rightarrow>
               if truthy error then (Inl (HTTPException 400 (or_empty error)), d')
               else (Inr tokens, d')))"
  using assms by (simp add: token_def)

lemma spent_token_rejects:
  assumes "spent c d" "f_grant_type f = ''authorization_code''" "f_code f = Some c"
  shows "(\<exists>msg. token cr d f now m = (Inl (HTTPException 400 msg), d)) \<and>
         (c \<noteq> [] \<and> truthy (f_redirect_uri f) \<longrightarrow>
            token cr d f now m = (Inl (HTTPException 400 ''invalid_grant''), d))"
proof -
  have ex: "exchange_code_for_tokens cr d c (f_client_id f) (f_client_secret f)
      (or_empty (f_redirect_uri f)) (f_code_verifier f) now m = ((None, Some ''invalid_grant''), d)"
    using spent_exchange_rejects[OF assms(1)] by (simp add: invalid_grant_def)
  show ?thesis
    unfolding token_code_branch[OF assms(2)] using assms(3) ex
    by (auto simp: truthy_def)
qed

lemma token_success:
  assumes "f_grant_type f = ''authorization_code''" "f_code f = Some c"
    "token cr d f now m = (Inr t, d')"
  shows "\<exists>row. find (\<lambda>r. code_value r = c) (oauth_codes d) = Some row \<and> consumed_at row = None \<and>
           exchange_code_for_tokens cr d c (f_client_id f) (f_client_secret f)
             (or_empty (f_redirect_uri f)) (f_code_verifier f) now m = issue_tokens d row now m \<and>
           d' = snd (issue_tokens d row now m) \<and> t = fst (fst (issue_tokens d row now m)) \<and>
           truthy (f_code f) \<and> truthy (f_redirect_uri f)"
proof -
  let ?ex = "exchange_code_for_tokens cr d c (f_client_id f) (f_client_secret f)
             (or_empty (f_redirect_uri f)) (f_code_verifier f) now m"
  from assms(3) have tr: "truthy (f_code f)" "truthy (f_redirect_uri f)"
    unfolding token_code_branch[OF assms(1)] by (auto split: if_splits)
  obtain tokens error d2 where e: "?ex = ((tokens, error), d2)" by (cases ?ex) auto
  from assms(3) tr e assms(2) have ok: "\<not> truthy error" "t = tokens" "d' = d2"
    unfolding token_code_branch[OF assms(1)] by (auto split: if_splits)
  from exchange_cases[of cr d c "f_client_id f" "f_client_secret f"
      "or_empty (f_redirect_uri f)" "f_code_verifier f" now m]
  show ?thesis
  proof (elim disjE exE conjE)
    assume "?ex = invalid_grant d"
    with e ok show ?thesis by (auto simp: invalid_grant_def)
  next
    assume "?ex = invalid_client d"
    with e ok show ?thesis by (auto simp: invalid_client_def)
  next
    fix row
    assume "find (\<lambda>r. code_value r = c) (oauth_codes d) = Some row" "consumed_at row = None"
      "?ex = issue_tokens d row now m"
    with e ok tr show ?thesis by auto
  qed
qed

lemma redeems_spent: "redeems cr c d e \<Longrightarrow> spent c (oauth_step cr d e)"
proof (cases e)
  case (TokenRequest f now m)
  assume r: "redeems cr c d e"
  obtain res d' where tk: "token cr d f now m = (res, d')" by (cases "token cr d f now m")
  with r TokenRequest obtain t where res: "res = Inr t" by (cases res) (auto simp: isOK_def)
  from r TokenRequest have g: "f_grant_type f = ''authorization_code''" "f_code f = Some c" by auto
  from token_success[OF g tk[unfolded res]]
  obtain row where row: "find (\<lambda>r. code_value r = c) (oauth_codes d) = Some row"
    "d' = snd (issue_tokens d row now m)" by blast
  from find_code_value[OF row(1)] have "code_value row = c" by simp
  then have "spent c (snd (issue_tokens d row now m))" by (rule spent_issue)
  then show ?thesis using TokenRequest tk row(2) by simp
qed simp_all

lemma spent_not_redeems: "spent c d \<Longrightarrow> \<not> redeems cr c d e"
proof (cases e)
  case (TokenRequest f now m)
  assume s: "spent c d"
  show ?thesis
  proof
    assume r: "redeems cr c d e"
    with TokenRequest have g: "f_grant_type f = ''authorization_code''" "f_code f = Some c"
      and ok: "isOK (fst (token cr d f now m))" by auto
    from spent_token_rejects[OF s g, of cr now m] obtain msg where
      "token cr d f now m = (Inl (HTTPException 400 msg), d)" by blast
    with ok show False by (simp add: isOK_def)
  qed
qed simp_all

lemma spent_no_redemptions:
  "spent c d \<Longrightarrow> never_reissued c es \<Longrightarrow> redemptions cr c d es = 0"
proof (induction es arbitrary: d)
  case Nil
  then show ?case by simp
next
  case (Cons e es)
  have "\<not> redeems cr c d e" using Cons.prems(1) by (rule spent_not_redeems)
  moreover have "spent c (oauth_step cr d e)" using Cons.prems by (rule step_spent_keeps)
  moreover have "never_reissued c es" using Cons.prems(2) by (rule never_reissued_tail)
  ultimately show ?case using Cons.IH by simp
qed

lemma redemptions_le_1: "never_reissued c es \<Longrightarrow> redemptions cr c d es \<le> 1"
proof (induction es arbitrary: d)
  case Nil
  then show ?case by simp
next
  case (Cons e es)
  have tl: "never_reissued c es" using Cons.prems by (rule never_reissued_tail)
  show ?case
  proof (cases "redeems cr c d e")
    case True
    then have "spent c (oauth_step cr d e)" by (rule redeems_spent)
    then have "redemptions cr c (oauth_step cr d e) es = 0" using tl by (rule spent_no_redemptions)
    with True show ?thesis by simp
  next
    case False
    with Cons.IH[OF tl] show ?thesis by simp
  qed
qed

lemma wiki_lookup: "get_application_by_client_id db0 ''abc'' = Some wiki"
  by (simp add: get_application_by_client_id_def db0_def wiki_def)

lemma nobody_lookup: "get_application_by_client_id db0 ''nobody'' = None"
  by (simp add: get_application_by_client_id_def db0_def wiki_def)

subsection \<open>Authorization endpoint\<close>

lemma authorize_wrong_response_type:
  "q_response_type q \<noteq> ''code'' \<Longrightarrow>
   authorize d q usr new_code now =
     (Inr (RedirectResponse
            (q_redirect_uri q @ ''?error=unsupported_response_type&state='' @ or_empty (q_state q))), d)"
  by (simp add: authorize_def)

lemma authorize_wrong_method:
  "q_response_type q = ''code'' \<Longrightarrow>
   truthy (q_code_challenge_method q) \<and> or_empty (q_code_challenge_method q) \<notin> {''S256'', ''plain''} \<Longrightarrow>
   authorize d q usr new_code now =
     (Inr (RedirectResponse
            (q_redirect_uri q @
             ''?error=invalid_request&error_description=invalid_code_challenge_method&state='' @
             or_empty (q_state q))), d)"
  by (simp add: authorize_def)

lemma authorize_unknown_client:
  assumes "q_response_type q = ''code''"
    "\<not> (truthy (q_code_challenge_method q) \<and> or_empty (q_code_challenge_method q) \<notin> {''S256'', ''plain''})"
    "get_application_by_client_id d (q_client_id q) = None"
  shows "authorize d q usr new_code now =
     (Inr (RedirectResponse
            (q_redirect_uri q @ ''?error=invalid_client&state='' @ or_empty (q_state q))), d)"
proof -
  have m: "\<not> (truthy (q_code_challenge_method q) \<and>
             or_empty (q_code_challenge_method q) \<notin> set [''S256'', ''plain''])"
    using assms(2) by simp
  show ?thesis unfolding authorize_def Let_def using assms(1,3) m by simp
qed

lemma authorize_unregistered_uri:
  assumes "q_response_type q = ''code''"
    "\<not> (truthy (q_code_challenge_method q) \<and> or_empty (q_code_challenge_method q) \<notin> {''S256'', ''plain''})"
    "get_application_by_client_id d (q_client_id q) = Some app"
    "q_redirect_uri q \<notin> set (redirect_uris app)"
  shows "authorize d q usr new_code now = (Inl (HTTPException 400 ''Invalid redirect_uri''), d)"
proof -
  have m: "\<not> (truthy (q_code_challenge_method q) \<and>
             or_empty (q_code_challenge_method q) \<notin> set [''S256'', ''plain''])"
    using assms(2) by simp
  show ?thesis unfolding authorize_def Let_def using assms(1,3,4) m
    by (simp add: validate_redirect_uri_def)
qed

lemma known_unregistered:
  "get_application_by_client_id db0 (q_client_id mismatch_query) = Some wiki"
  "q_redirect_uri mismatch_query \<notin> set (redirect_uris wiki)"
  "get_application_by_client_id db0 (q_client_id token_type_query) = Some wiki"
  "q_redirect_uri token_type_query \<notin> set (redirect_uris wiki)"
  "get_application_by_client_id db0 (q_client_id s512_query) = Some wiki"
  "q_redirect_uri s512_query \<notin> set (redirect_uris wiki)"
  by (simp_all add: token_type_query_def s512_query_def mismatch_query_def evil_query_def wiki_lookup)
     (simp_all add: wiki_def)

lemma authorize_evil:
  "authorize db0 evil_query None ''c1'' 0 =
     (Inr (RedirectResponse ''https://evil/cb?error=invalid_client&state=s''), db0)"
  by (simp add: authorize_def evil_query_def nobody_lookup truthy_def or_empty_def)

lemma authorize_token_type:
  "authorize db0 token_type_query None ''c1'' 0 =
     (Inr (RedirectResponse ''https://evil/cb?error=unsupported_response_type&state=s''), db0)"
  by (simp add: authorize_def token_type_query_def mismatch_query_def evil_query_def or_empty_def)

lemma authorize_s512:
  "authorize db0 s512_query None ''c1'' 0 =
     (Inr (RedirectResponse
            ''https://evil/cb?error=invalid_request&error_description=invalid_code_challenge_method&state=s''),
      db0)"
  by (simp add: authorize_def s512_query_def mismatch_query_def evil_query_def truthy_def
      or_empty_def)

text \<open>
  C5 as stated fails, in three ways: an authorize request with an unknown \<open>client_id\<close>, and
  requests of a known client with an unregistered \<open>redirect_uri\<close> whose \<open>response_type\<close> is
  not \<open>code\<close> or whose challenge method is unsupported, are all answered with a redirect
  to the supplied, unverified \<open>redirect_uri\<close>, not with a direct 4xx.
\<close>

theorem authorize_redirects_before_trust_counterexample:
  "authorize db0 evil_query None ''c1'' 0 =
     (Inr (RedirectResponse ''https://evil/cb?error=invalid_client&state=s''), db0) \<and>
   get_application_by_client_id db0 (q_client_id token_type_query) = Some wiki \<and>
   q_redirect_uri token_type_query \<notin> set (redirect_uris wiki) \<and>
   authorize db0 token_type_query None ''c1'' 0 =
     (Inr (RedirectResponse ''https://evil/cb?error=unsupported_response_type&state=s''), db0) \<and>
   get_application_by_client_id db0 (q_client_id s512_query) = Some wiki \<and>
   q_redirect_uri s512_query \<notin> set (redirect_uris wiki) \<and>
   authorize db0 s512_query None ''c1'' 0 =
     (Inr (RedirectResponse
            ''https://evil/cb?error=invalid_request&error_description=invalid_code_challenge_method&state=s''),
      db0)"
  using authorize_evil authorize_token_type authorize_s512 known_unregistered by (intro conjI)

text \<open>
  C5 (amended). For every authorize request that fails before client and redirect trust
  is established (the \<open>client_id\<close> is unknown or inactive, or the \<open>redirect_uri\<close> is not
  registered for it), no code is issued and the response is decided in the order of the
  endpoint's checks: a \<open>response_type\<close> other than \<open>code\<close> redirects to the supplied
  \<open>redirect_uri\<close> with \<open>error=unsupported_response_type\<close>; otherwise an unsupported
  challenge method redirects there with \<open>error=invalid_request\<close>; otherwise an unknown or
  inactive client redirects there with \<open>error=invalid_client\<close>; otherwise (known client,
  unregistered \<open>redirect_uri\<close>) the endpoint raises 400 directly and redirects nowhere.
\<close>

theorem authorize_before_trust:
  assumes "get_application_by_client_id d (q_client_id q) = None \<or>
           (\<exists>app. get_application_by_client_id d (q_client_id q) = Some app \<and>
                  q_redirect_uri q \<notin> set (redirect_uris app))"
  shows "authorize d q usr new_code now =
     (if q_response_type q \<noteq> ''code''
      then (Inr (RedirectResponse
                  (q_redirect_uri q @ ''?error=unsupported_response_type&state='' @ or_empty (q_state q))), d)
      else if truthy (q_code_challenge_method q) \<and>
              or_empty (q_code_challenge_method q) \<notin> {''S256'', ''plain''}
      then (Inr (RedirectResponse
                  (q_redirect_uri q @
                   ''?error=invalid_request&error_description=invalid_code_challenge_method&state='' @
                   or_empty (q_state q))), d)
      else if get_application_by_client_id d (q_client_id q) = None
      then (Inr (RedirectResponse
                  (q_redirect_uri q @ ''?error=invalid_client&state='' @ or_empty (q_state q))), d)
      else (Inl (HTTPException 400 ''Invalid redirect_uri''), d))"
proof (cases "q_response_type q \<noteq> ''code''")
  case True
  then show ?thesis by (simp add: authorize_wrong_response_type)
next
  case rt: False
  show ?thesis
  proof (cases "truthy (q_code_challenge_method q) \<and>
                or_empty (q_code_challenge_method q) \<notin> {''S256'', ''plain''}")
    case True
    with rt show ?thesis using authorize_wrong_method[of q d usr new_code now] by simp
  next
    case m: False
    show ?thesis
    proof (cases "get_application_by_client_id d (q_client_id q)")
      case None
      with rt m show ?thesis using authorize_unknown_client[of q d usr new_code now] by simp
    next
      case (Some app)
      with assms have "q_redirect_uri q \<notin> set (redirect_uris app)" by simp
      with rt m Some show ?thesis
        using authorize_unregistered_uri[of q d app usr new_code now] by simp
    qed
  qed
qed

theorem authorize_before_trust_witness:
  "authorize db0 mismatch_query (Some bob) ''c1'' 0 =
     (Inl (HTTPException 400 ''Invalid redirect_uri''), db0) \<and>
   authorize db0 evil_query (Some bob) ''c1'' 0 =
     (Inr (RedirectResponse ''https://evil/cb?error=invalid_client&state=s''), db0) \<and>
   authorize db0 token_type_query (Some bob) ''c1'' 0 =
     (Inr (RedirectResponse ''https://evil/cb?error=unsupported_response_type&state=s''), db0)"
proof -
  have u1: "get_application_by_client_id db0 (q_client_id mismatch_query) = None \<or>
           (\<exists>app. get_application_by_client_id db0 (q_client_id mismatch_query) = Some app \<and>
                  q_redirect_uri mismatch_query \<notin> set (redirect_uris app))"
    using known_unregistered(1,2) by blast
  have u2: "get_application_by_client_id db0 (q_client_id evil_query) = None \<or>
           (\<exists>app. get_application_by_client_id db0 (q_client_id evil_query) = Some app \<and>
                  q_redirect_uri evil_query \<notin> set (redirect_uris app))"
    by (simp add: evil_query_def nobody_lookup)
  have u3: "get_application_by_client_id db0 (q_client_id token_type_query) = None \<or>
           (\<exists>app. get_application_by_client_id db0 (q_client_id token_type_query) = Some app \<and>
                  q_redirect_uri token_type_query \<notin> set (redirect_uris app))"
    using known_unregistered(3,4) by blast
  have r1: "authorize db0 mismatch_query (Some bob) ''c1'' 0 =
     (Inl (HTTPException 400 ''Invalid redirect_uri''), db0)"
    unfolding authorize_before_trust [OF u1] using known_unregistered(1)
    by (simp add: mismatch_query_def evil_query_def truthy_def)
  have r2: "authorize db0 evil_query (Some bob) ''c1'' 0 =
     (Inr (RedirectResponse ''https://evil/cb?error=invalid_client&state=s''), db0)"
    unfolding authorize_before_trust [OF u2]
    by (simp add: evil_query_def nobody_lookup truthy_def or_empty_def)
  have r3: "authorize db0 token_type_query (Some bob) ''c1'' 0 =
     (Inr (RedirectResponse ''https://evil/cb?error=unsupported_response_type&state=s''), db0)"
    unfolding authorize_before_trust [OF u3]
    by (simp add: token_type_query_def mismatch_query_def evil_query_def or_empty_def)
  from r1 r2 r3 show ?thesis by (intro conjI)
qed

subsection \<open>Revocation endpoint\<close>

text \<open>
  C6. Once the client's credentials verify, the revocation endpoint returns normally
  (HTTP 200) with the empty body \<open>{}\<close> for every token value, whether or not such a token
  exists, belongs to the client or is already revoked.
\<close>

theorem revoke_always_empty_200:
  assumes "get_application_by_client_id d (rv_client_id f) = Some app"
    and "verify_secret cr (rv_client_secret f) (client_secret_hash app)"
  shows "fst (revoke_token cr d f now) = Inr []"
  using assms by (simp add: revoke_token_def)

theorem revoke_always_empty_200_witness:
  "fst (revoke_token test_crypto db0 revoke_unknown 5) = Inr []"
  using revoke_always_empty_200 [of db0 revoke_unknown wiki test_crypto 5]
  by (simp add: revoke_unknown_def wiki_lookup test_crypto_def wiki_def)

subsection \<open>Token endpoint\<close>

lemma exchange_s256_mismatch:
  assumes "find (\<lambda>r. code_value r = c) (oauth_codes d) = Some row" "code_challenge row = Some h"
    "code_challenge_method row = Some ''S256''"
    "\<not> (\<exists>v. verifier = Some v \<and> s256 cr v = h)"
  shows "exchange_code_for_tokens cr d c cid secret uri verifier now m = invalid_grant d"
  using assms unfolding exchange_code_for_tokens_def
  by (simp split: option.splits)

lemma exchange_plain_mismatch:
  assumes "find (\<lambda>r. code_value r = c) (oauth_codes d) = Some row" "code_challenge row = Some h"
    "code_challenge_method row = Some ''plain''"
    "verifier \<noteq> Some h"
  shows "exchange_code_for_tokens cr d c cid secret uri verifier now m = invalid_grant d"
  using assms unfolding exchange_code_for_tokens_def
  by (auto split: option.splits)

lemma token_of_invalid_grant:
  assumes "f_grant_type f = ''authorization_code''"
    "exchange_code_for_tokens cr d (or_empty (f_code f)) (f_client_id f) (f_client_secret f)
       (or_empty (f_redirect_uri f)) (f_code_verifier f) now m = invalid_grant d"
  shows "\<not> isOK (fst (token cr d f now m)) \<and>
         (truthy (f_code f) \<and> truthy (f_redirect_uri f) \<longrightarrow>
            token cr d f now m = (Inl (HTTPException 400 ''invalid_grant''), d))"
  unfolding token_code_branch[OF assms(1)] using assms(2)
  by (simp add: invalid_grant_def isOK_def)

text \<open>
  C4. For a code stored with a challenge \<open>h\<close>: under method \<open>S256\<close> a redemption succeeds
  only if the request carries a verifier \<open>v\<close> with \<open>s256 v = h\<close>, and under method
  \<open>plain\<close> only if the verifier is \<open>h\<close> itself; a request that carries the code, a
  redirect URI and any other verifier is answered 400 \<open>invalid_grant\<close>, store unchanged.
\<close>

theorem pkce_soundness:
  assumes "f_grant_type f = ''authorization_code''" "f_code f = Some c"
    and "find (\<lambda>r. code_value r = c) (oauth_codes d) = Some row" "code_challenge row = Some h"
  shows "(code_challenge_method row = Some ''S256'' \<longrightarrow>
            (isOK (fst (token cr d f now m)) \<longrightarrow> (\<exists>v. f_code_verifier f = Some v \<and> s256 cr v = h)) \<and>
            (\<forall>v. f_code_verifier f = Some v \<and> s256 cr v \<noteq> h \<and> c \<noteq> [] \<and> truthy (f_redirect_uri f) \<longrightarrow>
                 token cr d f now m = (Inl (HTTPException 400 ''invalid_grant''), d))) \<and>
         (code_challenge_method row = Some ''plain'' \<longrightarrow>
            (isOK (fst (token cr d f now m)) \<longrightarrow> f_code_verifier f = Some h) \<and>
            (\<forall>v. f_code_verifier f = Some v \<and> v \<noteq> h \<and> c \<noteq> [] \<and> truthy (f_redirect_uri f) \<longrightarrow>
                 token cr d f now m = (Inl (HTTPException 400 ''invalid_grant''), d)))"
proof (intro conjI impI allI)
  assume s: "code_challenge_method row = Some ''S256''" and ok: "isOK (fst (token cr d f now m))"
  show "\<exists>v. f_code_verifier f = Some v \<and> s256 cr v = h"
  proof (rule ccontr)
    assume "\<not> (\<exists>v. f_code_verifier f = Some v \<and> s256 cr v = h)"
    from exchange_s256_mismatch[OF assms(3,4) s this]
    have "exchange_code_for_tokens cr d (or_empty (f_code f)) (f_client_id f) (f_client_secret f)
       (or_empty (f_redirect_uri f)) (f_code_verifier f) now m = invalid_grant d"
      using assms(2) by simp
    from token_of_invalid_grant[OF assms(1) this] ok show False by simp
  qed
next
  fix v
  assume s: "code_challenge_method row = Some ''S256''"
    and v: "f_code_verifier f = Some v \<and> s256 cr v \<noteq> h \<and> c \<noteq> [] \<and> truthy (f_redirect_uri f)"
  then have "\<not> (\<exists>v. f_code_verifier f = Some v \<and> s256 cr v = h)" by auto
  from exchange_s256_mismatch[OF assms(3,4) s this]
  have "exchange_code_for_tokens cr d (or_empty (f_code f)) (f_client_id f) (f_client_secret f)
       (or_empty (f_redirect_uri f)) (f_code_verifier f) now m = invalid_grant d"
    using assms(2) by simp
  from token_of_invalid_grant[OF assms(1) this] v assms(2)
  show "token cr d f now m = (Inl (HTTPException 400 ''invalid_grant''), d)"
    by (simp add: truthy_def)
next
  assume s: "code_challenge_method row = Some ''plain''" and ok: "isOK (fst (token cr d f now m))"
  show "f_code_verifier f = Some h"
  proof (rule ccontr)
    assume "f_code_verifier f \<noteq> Some h"
    from exchange_plain_mismatch[OF assms(3,4) s this]
    have "exchange_code_for_tokens cr d (or_empty (f_code f)) (f_client_id f) (f_client_secret f)
       (or_empty (f_redirect_uri f)) (f_code_verifier f) now m = invalid_grant d"
      using assms(2) by simp
    from token_of_invalid_grant[OF assms(1) this] ok show False by simp
  qed
next
  fix v
  assume s: "code_challenge_method row = Some ''plain''"
    and v: "f_code_verifier f = Some v \<and> v \<noteq> h \<and> c \<noteq> [] \<and> truthy (f_redirect_uri f)"
  then have "f_code_verifier f \<noteq> Some h" by auto
  from exchange_plain_mismatch[OF assms(3,4) s this]
  have "exchange_code_for_tokens cr d (or_empty (f_code f)) (f_client_id f) (f_client_secret f)
       (or_empty (f_redirect_uri f)) (f_code_verifier f) now m = invalid_grant d"
    using assms(2) by simp
  from token_of_invalid_grant[OF assms(1) this] v assms(2)
  show "token cr d f now m = (Inl (HTTPException 400 ''invalid_grant''), d)"
    by (simp add: truthy_def)
qed

lemma find_pkce_code: "find (\<lambda>r. code_value r = ''c0de'') (oauth_codes db2) = Some pkce_code"
  by (simp add: db2_def pkce_code_def)

lemma exchange_good:
  "exchange_code_for_tokens test_crypto db2 ''c0de'' ''abc'' None ''https://c/cb''
     (Some ''dBjftJeZ4CVP-mB92K27uhbUJU1p1r_wW1gFWFOEjXk'') 10 mint1 =
   issue_tokens db2 pkce_code 10 mint1"
  unfolding exchange_code_for_tokens_def find_pkce_code
  by (simp add: pkce_code_def db2_def db0_def wiki_def test_crypto_def)

lemma token_good:
  "token test_crypto db2 form_good 10 mint1 =
     (Inr (fst (fst (issue_tokens db2 pkce_code 10 mint1))), snd (issue_tokens db2 pkce_code 10 mint1))"
  unfolding token_def
  by (simp add: form_good_def truthy_def or_empty_def exchange_good) (simp add: issue_tokens_def)

theorem pkce_soundness_witness:
  "isOK (fst (token test_crypto db2 form_good 10 mint1)) \<and>
   token test_crypto db2 form_wrong 10 mint1 = (Inl (HTTPException 400 ''invalid_grant''), db2)"
proof -
  have g: "f_grant_type form_wrong = ''authorization_code''" "f_code form_wrong = Some ''c0de''"
    by (simp_all add: form_wrong_def form_good_def)
  have h: "code_challenge pkce_code = Some ''E9Melhoa2OwvFrEMTJguCHaoeK1t8URWbuGJSstw-cM''"
    "code_challenge_method pkce_code = Some ''S256''"
    by (simp_all add: pkce_code_def)
  have w: "f_code_verifier form_wrong = Some ''wrong'' \<and>
           s256 test_crypto ''wrong'' \<noteq> ''E9Melhoa2OwvFrEMTJguCHaoeK1t8URWbuGJSstw-cM'' \<and>
           ''c0de'' \<noteq> [] \<and> truthy (f_redirect_uri form_wrong)"
    by (simp add: form_wrong_def form_good_def test_crypto_def truthy_def)
  from pkce_soundness[OF g find_pkce_code h(1), of test_crypto 10 mint1] h(2) w
  have "token test_crypto db2 form_wrong 10 mint1 = (Inl (HTTPException 400 ''invalid_grant''), db2)"
    by blast
  moreover have "isOK (fst (token test_crypto db2 form_good 10 mint1))"
    by (simp add: token_good isOK_def)
  ultimately show ?thesis by simp
qed

text \<open>
  C1. Along any history of token, authorize, revoke and sweep requests in which the code
  string \<open>c\<close> is not drawn again, at most one redemption of \<open>c\<close> succeeds. A successful
  redemption marks the code consumed in the same store update that stores the tokens, and
  every later redemption attempt of \<open>c\<close> is refused with HTTP 400, with detail
  \<open>invalid_grant\<close> whenever the attempt carries a redirect URI.
\<close>

theorem code_single_use:
  "(never_reissued c es \<longrightarrow> redemptions cr c d es \<le> 1) \<and>
   (f_grant_type f = ''authorization_code'' \<and> f_code f = Some c \<and>
    token cr d f now m = (Inr t, d') \<and> never_reissued c es \<and>
    f_grant_type f2 = ''authorization_code'' \<and> f_code f2 = Some c \<longrightarrow>
      (\<exists>row. code_value row = c \<and> consumed_at row = None \<and> row \<in> set (oauth_codes d) \<and>
             d' = snd (issue_tokens d row now m)) \<and>
      spent c d' \<and>
      (\<exists>msg. token cr (oauth_run cr d' es) f2 now2 m2 =
               (Inl (HTTPException 400 msg), oauth_run cr d' es)) \<and>
      (truthy (f_redirect_uri f2) \<longrightarrow>
         token cr (oauth_run cr d' es) f2 now2 m2 =
           (Inl (HTTPException 400 ''invalid_grant''), oauth_run cr d' es)))"
proof (rule conjI)
  show "never_reissued c es \<longrightarrow> redemptions cr c d es \<le> 1"
    using redemptions_le_1 by blast
next
  show "f_grant_type f = ''authorization_code'' \<and> f_code f = Some c \<and>
    token cr d f now m = (Inr t, d') \<and> never_reissued c es \<and>
    f_grant_type f2 = ''authorization_code'' \<and> f_code f2 = Some c \<longrightarrow>
      (\<exists>row. code_value row = c \<and> consumed_at row = None \<and> row \<in> set (oauth_codes d) \<and>
             d' = snd (issue_tokens d row now m)) \<and>
      spent c d' \<and>
      (\<exists>msg. token cr (oauth_run cr d' es) f2 now2 m2 =
               (Inl (HTTPException 400 msg), oauth_run cr d' es)) \<and>
      (truthy (f_redirect_uri f2) \<longrightarrow>
         token cr (oauth_run cr d' es) f2 now2 m2 =
           (Inl (HTTPException 400 ''invalid_grant''), oauth_run cr d' es))"
  proof
    assume a: "f_grant_type f = ''authorization_code'' \<and> f_code f = Some c \<and>
      token cr d f now m = (Inr t, d') \<and> never_reissued c es \<and>
      f_grant_type f2 = ''authorization_code'' \<and> f_code f2 = Some c"
    then have g: "f_grant_type f = ''authorization_code''" "f_code f = Some c"
      "token cr d f now m = (Inr t, d')" by simp_all
    from token_success[OF g]
    obtain row where row: "find (\<lambda>r. code_value r = c) (oauth_codes d) = Some row"
      "consumed_at row = None" "d' = snd (issue_tokens d row now m)" "truthy (f_code f)" by blast
    from find_code_value[OF row(1)]
    have cv: "code_value row = c" "row \<in> set (oauth_codes d)" by simp_all
    have b1: "\<exists>row. code_value row = c \<and> consumed_at row = None \<and> row \<in> set (oauth_codes d) \<and>
               d' = snd (issue_tokens d row now m)"
      using cv row by blast
    have b2: "spent c d'" using cv(1) row(3) by (simp add: spent_issue)
    from a have nr: "never_reissued c es" by simp
    have sp2: "spent c (oauth_run cr d' es)" using b2 nr by (rule run_spent_keeps)
    from a have g2: "f_grant_type f2 = ''authorization_code''" "f_code f2 = Some c" by simp_all
    note rej = spent_token_rejects[OF sp2 g2, of cr now2 m2]
    have b3: "\<exists>msg. token cr (oauth_run cr d' es) f2 now2 m2 =
                 (Inl (HTTPException 400 msg), oauth_run cr d' es)"
      using rej by (rule conjunct1)
    have "c \<noteq> []" using row(4) g(2) by (simp add: truthy_def)
    then have b4: "truthy (f_redirect_uri f2) \<longrightarrow>
           token cr (oauth_run cr d' es) f2 now2 m2 =
             (Inl (HTTPException 400 ''invalid_grant''), oauth_run cr d' es)"
      using conjunct2[OF rej] by simp
    show "(\<exists>row. code_value row = c \<and> consumed_at row = None \<and> row \<in> set (oauth_codes d) \<and>
             d' = snd (issue_tokens d row now m)) \<and>
      spent c d' \<and>
      (\<exists>msg. token cr (oauth_run cr d' es) f2 now2 m2 =
               (Inl (HTTPException 400 msg), oauth_run cr d' es)) \<and>
      (truthy (f_redirect_uri f2) \<longrightarrow>
         token cr (oauth_run cr d' es) f2 now2 m2 =
           (Inl (HTTPException 400 ''invalid_grant''), oauth_run cr d' es))"
      using b1 b2 b3 b4 by (intro conjI)
  qed
qed

theorem code_single_use_witness:
  "redemptions test_crypto ''c0de'' db2
     [TokenRequest form_good 10 mint1, CleanupTokens 20, TokenRequest form_good 30 mint1] \<le> 1 \<and>
   token test_crypto
     (oauth_run test_crypto (snd (issue_tokens db2 pkce_code 10 mint1)) [CleanupTokens 20])
     form_good 30 mint1 =
     (Inl (HTTPException 400 ''invalid_grant''),
      oauth_run test_crypto (snd (issue_tokens db2 pkce_code 10 mint1)) [CleanupTokens 20])"
proof -
  have n1: "never_reissued ''c0de''
     [TokenRequest form_good 10 mint1, CleanupTokens 20, TokenRequest form_good 30 mint1]"
    by simp
  have n2: "never_reissued ''c0de'' [CleanupTokens 20]" by simp
  have g: "f_grant_type form_good = ''authorization_code''" "f_code form_good = Some ''c0de''"
    "truthy (f_redirect_uri form_good)"
    by (simp_all add: form_good_def truthy_def)
  from code_single_use[of "''c0de''"
      "[TokenRequest form_good 10 mint1, CleanupTokens 20, TokenRequest form_good 30 mint1]"
      test_crypto db2] n1
  have a: "redemptions test_crypto ''c0de'' db2
     [TokenRequest form_good 10 mint1, CleanupTokens 20, TokenRequest form_good 30 mint1] \<le> 1"
    by blast
  from code_single_use[of "''c0de''" "[CleanupTokens 20]" test_crypto db2 form_good 10 mint1
      "fst (fst (issue_tokens db2 pkce_code 10 mint1))" "snd (issue_tokens db2 pkce_code 10 mint1)"
      form_good 30 mint1] n2 g token_good
  have b: "token test_crypto
     (oauth_run test_crypto (snd (issue_tokens db2 pkce_code 10 mint1)) [CleanupTokens 20])
     form_good 30 mint1 =
     (Inl (HTTPException 400 ''invalid_grant''),
      oauth_run test_crypto (snd (issue_tokens db2 pkce_code 10 mint1)) [CleanupTokens 20])"
    by blast
  from a b show ?thesis by simp
qed


end
